theory Spec2Isabelle
  imports Complex_Main "HOL-Library.Multiset"
begin

section \<open>Data model\<close>

text \<open>
  The TypeScript interfaces \<open>Coordinates\<close> and \<open>AppointmentData\<close> (the client-side
  \<open>Appointment\<close> has the same fields plus optional ones the optimizer never reads).
  A coordinate and a duration are finite doubles, held as the real numbers they denote.
  What a \<open>number\<close> variable of the optimizer can hold is the type \<open>number\<close>: a
  finite value, the sentinel \<open>Infinity\<close> the searches start from, and \<open>NaN\<close>, which
  \<open>calculateDistance\<close> returns when its square root is taken of a negative number
  and which arithmetic and comparisons make of the \<open>undefined\<close> read from a matrix row
  that is too short. Inside \<open>calculateDistance\<close> every operation is rounded as the
  doubles round it; the sums of distances and the products with the travel time per mile
  are exact on finite values.
\<close>

record Coordinates =
  lat :: real
  lng :: real

record AppointmentData =
  id' :: string
  client :: string
  address :: string
  appointmentType :: string
  duration :: real
  notes' :: "string option"
  latitude :: real
  longitude :: real

datatype number = NaN | Finite real | Infinity

datatype error = TypeError

text \<open>The comparison \<open>x < y\<close> of JavaScript on these values: false whenever a side is NaN.\<close>

fun jsLess :: "number \<Rightarrow> number \<Rightarrow> bool" where
  "jsLess (Finite x) (Finite y) = (x < y)"
| "jsLess (Finite x) Infinity = True"
| "jsLess _ _ = False"

text \<open>The sum \<open>x + y\<close> of JavaScript on these values.\<close>

fun jsAdd :: "number \<Rightarrow> number \<Rightarrow> number" where
  "jsAdd (Finite x) (Finite y) = Finite (x + y)"
| "jsAdd NaN _ = NaN"
| "jsAdd _ NaN = NaN"
| "jsAdd _ _ = Infinity"

text \<open>The object literal \<open>{ lat: appointment.latitude, lng: appointment.longitude }\<close>.\<close>

definition location :: "AppointmentData \<Rightarrow> Coordinates" where
  "location appointment = \<lparr>lat = latitude appointment, lng = longitude appointment\<rparr>"

text \<open>\<open>unvisited.splice(index, 1)\<close>: the list without the element at \<open>index\<close>.\<close>

definition spliceOne :: "'a list \<Rightarrow> nat \<Rightarrow> 'a list" where
  "spliceOne xs index = take index xs @ drop (Suc index) xs"

section \<open>Double arithmetic\<close>

text \<open>
  The nearest integer, ties to the even one, and the nearest double: a real is rounded to
  53 significant bits, ties to the even significand. The exponent range is not bounded
  in the model, so nothing overflows to an infinity or underflows to a subnormal.
\<close>

definition roundEven :: "real \<Rightarrow> int" where
  "roundEven q =
     (let f = \<lfloor>q\<rfloor>; r = q - of_int f
      in if r < 1 / 2 then f
         else if 1 / 2 < r then f + 1
         else if even f then f else f + 1)"

definition rnd :: "real \<Rightarrow> real" where
  "rnd x =
     (if x = 0 then 0
      else (let ulp = 2 powi (\<lfloor>log 2 \<bar>x\<bar>\<rfloor> - 52)
            in of_int (roundEven (x / ulp)) * ulp))"

text \<open>The operators \<open>+\<close>, \<open>-\<close>, \<open>*\<close> and \<open>/\<close> on finite doubles.\<close>

definition dadd :: "real \<Rightarrow> real \<Rightarrow> real" where
  "dadd x y = rnd (x + y)"

definition dsub :: "real \<Rightarrow> real \<Rightarrow> real" where
  "dsub x y = rnd (x - y)"

definition dmul :: "real \<Rightarrow> real \<Rightarrow> real" where
  "dmul x y = rnd (x * y)"

definition ddiv :: "real \<Rightarrow> real \<Rightarrow> real" where
  "ddiv x y = rnd (x / y)"

text \<open>\<open>Math.PI\<close>, the double 3.141592653589793.\<close>

definition Math_PI :: real where
  "Math_PI = 884279719003555 / 2 ^ 48"

text \<open>
  \<open>Math.sin\<close>, \<open>Math.cos\<close>, \<open>Math.sqrt\<close> and \<open>Math.atan2\<close> are taken to return the
  double nearest to the exact value. \<open>Math.sqrt\<close> of a negative number is NaN, written
  \<open>None\<close>.
\<close>

definition Math_sin :: "real \<Rightarrow> real" where
  "Math_sin x = rnd (sin x)"

definition Math_cos :: "real \<Rightarrow> real" where
  "Math_cos x = rnd (cos x)"

definition Math_sqrt :: "real \<Rightarrow> real option" where
  "Math_sqrt x = (if x < 0 then None else Some (rnd (sqrt x)))"

text \<open>The angle of the point \<open>(x, y)\<close>, which \<open>Math.atan2(y, x)\<close> rounds.\<close>

definition atan2 :: "real \<Rightarrow> real \<Rightarrow> real" where
  "atan2 y x =
     (if 0 < x then arctan (y / x)
      else if x < 0 then (if 0 \<le> y then arctan (y / x) + pi else arctan (y / x) - pi)
      else if 0 < y then pi / 2
      else if y < 0 then - pi / 2
      else 0)"

definition Math_atan2 :: "real \<Rightarrow> real \<Rightarrow> real" where
  "Math_atan2 y x = rnd (atan2 y x)"

section \<open>Haversine distance\<close>

text \<open>
  The value of \<open>a\<close> in \<open>calculateDistance\<close>, operation by operation in the order the
  source evaluates them. Every operand here is finite.
\<close>

definition haversine_a :: "Coordinates \<Rightarrow> Coordinates \<Rightarrow> real" where
  "haversine_a coord1 coord2 =
     (let dLat = ddiv (dmul (dsub (lat coord2) (lat coord1)) Math_PI) 180;
          dLon = ddiv (dmul (dsub (lng coord2) (lng coord1)) Math_PI) 180
      in dadd (dmul (Math_sin (ddiv dLat 2)) (Math_sin (ddiv dLat 2)))
           (dmul
              (dmul
                 (dmul (Math_cos (ddiv (dmul (lat coord1) Math_PI) 180))
                    (Math_cos (ddiv (dmul (lat coord2) Math_PI) 180)))
                 (Math_sin (ddiv dLon 2)))
              (Math_sin (ddiv dLon 2))))"

text \<open>
  \<open>calculateDistance\<close> (named \<open>calculateHaversineDistance\<close> in the client and in the
  distance-matrix route; the three bodies are the same). When \<open>a\<close> is below 0 or
  \<open>1 - a\<close> is, the square root is NaN, and so are \<open>Math.atan2\<close> of it, \<open>c\<close> and the
  result.
\<close>

definition calculateDistance :: "Coordinates \<Rightarrow> Coordinates \<Rightarrow> number" where
  "calculateDistance coord1 coord2 =
     (let R = 3959;
          a = haversine_a coord1 coord2
      in case (Math_sqrt a, Math_sqrt (dsub 1 a)) of
           (Some y, Some x) \<Rightarrow> (let c = dmul 2 (Math_atan2 y x) in Finite (dmul R c))
         | _ \<Rightarrow> NaN)"

section \<open>Open-path nearest neighbour (\<open>optimizeRoute\<close>)\<close>

text \<open>
  The callback of \<open>unvisited.forEach\<close>, run over the rest of the list from position
  \<open>index\<close>, on the pair of the loop variables \<open>(nearestIndex, nearestDistance)\<close>.
\<close>

fun forEachNearest ::
  "Coordinates \<Rightarrow> AppointmentData list \<Rightarrow> nat \<Rightarrow> nat \<times> number \<Rightarrow> nat \<times> number" where
  "forEachNearest currentLocation [] index st = st"
| "forEachNearest currentLocation (appointment # rest) index (nearestIndex, nearestDistance) =
     (let distance = calculateDistance currentLocation (location appointment)
      in if jsLess distance nearestDistance
         then forEachNearest currentLocation rest (Suc index) (index, distance)
         else forEachNearest currentLocation rest (Suc index) (nearestIndex, nearestDistance))"

text \<open>
  The \<open>while (unvisited.length > 0)\<close> loop. \<open>unvisited.splice(nearestIndex, 1)[0]\<close> is
  \<open>undefined\<close> when the index is out of range, and reading its \<open>latitude\<close> throws.
\<close>

function optimizeRouteWhile ::
  "AppointmentData list \<Rightarrow> AppointmentData list \<Rightarrow> Coordinates \<Rightarrow> error + AppointmentData list" where
  "optimizeRouteWhile unvisited route currentLocation =
     (if length unvisited > 0 then
        (let nearestIndex = fst (forEachNearest currentLocation unvisited 0 (0, Infinity))
         in if nearestIndex < length unvisited then
              optimizeRouteWhile (spliceOne unvisited nearestIndex)
                (route @ [unvisited ! nearestIndex]) (location (unvisited ! nearestIndex))
            else Inl TypeError)
      else Inr route)"
  by pat_completeness auto
termination
  by (relation "measure (\<lambda>(unvisited, route, currentLocation). length unvisited)")
     (auto simp: spliceOne_def)

declare optimizeRouteWhile.simps [simp del]

definition optimizeRoute ::
  "AppointmentData list \<Rightarrow> Coordinates option \<Rightarrow> error + AppointmentData list" where
  "optimizeRoute appointments startLocation =
     (if length appointments \<le> 1 then Inr appointments
      else optimizeRouteWhile appointments []
             (case startLocation of Some s \<Rightarrow> s | None \<Rightarrow> location (appointments ! 0)))"

text \<open>\<open>calculateTotalDistance\<close> of the open-path route: the \<open>for\<close> loop over consecutive
  stops, on the running total.\<close>

fun consecutiveLegs :: "AppointmentData list \<Rightarrow> number \<Rightarrow> number" where
  "consecutiveLegs (current # next # rest) totalDistance =
     consecutiveLegs (next # rest)
       (jsAdd totalDistance (calculateDistance (location current) (location next)))"
| "consecutiveLegs _ totalDistance = totalDistance"


section \<open>Round-trip nearest neighbour (\<open>optimizeRoundTripRoute\<close>)\<close>

text \<open>An array read \<open>xs[i]\<close>: \<open>None\<close> is the \<open>undefined\<close> of an index out of range.\<close>

definition nthOpt :: "'a list \<Rightarrow> nat \<Rightarrow> 'a option" where
  "nthOpt xs i = (if i < length xs then Some (xs ! i) else None)"

text \<open>
  The guard \<open>unvisited.length > 1 && appointment.id === targetEndAppointment.id\<close> of the
  \<open>forEach\<close> callback. Reading \<open>id\<close> of an undefined target throws.
\<close>

definition isTargetEnd :: "nat \<Rightarrow> AppointmentData option \<Rightarrow> AppointmentData \<Rightarrow> error + bool" where
  "isTargetEnd unvisitedLength targetEndAppointment appointment =
     (if unvisitedLength > 1 then
        (case targetEndAppointment of
           None \<Rightarrow> Inl TypeError
         | Some target \<Rightarrow> Inr (id' appointment = id' target))
      else Inr False)"

fun forEachNearestExcept ::
  "Coordinates \<Rightarrow> nat \<Rightarrow> AppointmentData option \<Rightarrow> AppointmentData list \<Rightarrow> nat \<Rightarrow>
   nat \<times> number \<Rightarrow> error + nat \<times> number" where
  "forEachNearestExcept currentLocation unvisitedLength target [] index st = Inr st"
| "forEachNearestExcept currentLocation unvisitedLength target (appointment # rest) index
     (nearestIndex, nearestDistance) =
     (case isTargetEnd unvisitedLength target appointment of
        Inl e \<Rightarrow> Inl e
      | Inr True \<Rightarrow>
          forEachNearestExcept currentLocation unvisitedLength target rest (Suc index)
            (nearestIndex, nearestDistance)
      | Inr False \<Rightarrow>
          (let distance = calculateDistance currentLocation (location appointment)
           in if jsLess distance nearestDistance
              then forEachNearestExcept currentLocation unvisitedLength target rest (Suc index)
                     (index, distance)
              else forEachNearestExcept currentLocation unvisitedLength target rest (Suc index)
                     (nearestIndex, nearestDistance)))"

function optimizeSingleRouteWhile ::
  "AppointmentData option \<Rightarrow> AppointmentData list \<Rightarrow> AppointmentData list \<Rightarrow> Coordinates \<Rightarrow>
   error + AppointmentData list" where
  "optimizeSingleRouteWhile targetEndAppointment unvisited route currentLocation =
     (if length unvisited > 0 then
        if length unvisited = 1 then Inr (route @ [unvisited ! 0])
        else
          (case forEachNearestExcept currentLocation (length unvisited) targetEndAppointment
                  unvisited 0 (0, Infinity) of
             Inl e \<Rightarrow> Inl e
           | Inr (nearestIndex, nearestDistance) \<Rightarrow>
               if nearestIndex < length unvisited then
                 optimizeSingleRouteWhile targetEndAppointment (spliceOne unvisited nearestIndex)
                   (route @ [unvisited ! nearestIndex]) (location (unvisited ! nearestIndex))
               else Inl TypeError)
      else Inr route)"
  by pat_completeness auto
termination
  by (relation "measure (\<lambda>(target, unvisited, route, currentLocation). length unvisited)")
     (auto simp: spliceOne_def)

declare optimizeSingleRouteWhile.simps [simp del]

definition optimizeSingleRoute ::
  "AppointmentData list \<Rightarrow> Coordinates \<Rightarrow> nat \<Rightarrow> error + AppointmentData list" where
  "optimizeSingleRoute appointments origin targetEndIndex =
     optimizeSingleRouteWhile (nthOpt appointments targetEndIndex) appointments [] origin"

definition calculateRoundTripDistance :: "AppointmentData list \<Rightarrow> Coordinates \<Rightarrow> number" where
  "calculateRoundTripDistance route origin =
     (if length route = 0 then Finite 0
      else jsAdd
             (consecutiveLegs route
                (jsAdd (Finite 0) (calculateDistance origin (location (route ! 0)))))
             (calculateDistance (location (route ! (length route - 1))) origin))"

text \<open>
  The \<open>for\<close> loop over \<open>endIndex\<close>, on the pair \<open>(bestRoute, bestTotalDistance)\<close>; the
  list argument holds the values of \<open>endIndex\<close> still to run.
\<close>

fun tryEndings ::
  "AppointmentData list \<Rightarrow> Coordinates \<Rightarrow> nat list \<Rightarrow> AppointmentData list \<times> number \<Rightarrow>
   error + AppointmentData list \<times> number" where
  "tryEndings appointments origin [] best = Inr best"
| "tryEndings appointments origin (endIndex # rest) (bestRoute, bestTotalDistance) =
     (case optimizeSingleRoute appointments origin endIndex of
        Inl e \<Rightarrow> Inl e
      | Inr candidateRoute \<Rightarrow>
          (let totalDistance = calculateRoundTripDistance candidateRoute origin
           in if jsLess totalDistance bestTotalDistance
              then tryEndings appointments origin rest (candidateRoute, totalDistance)
              else tryEndings appointments origin rest (bestRoute, bestTotalDistance)))"

text \<open>The result object \<open>{ route, totalDistance }\<close> is the pair of its two fields.\<close>

definition optimizeRoundTripRoute ::
  "AppointmentData list \<Rightarrow> Coordinates option \<Rightarrow> error + AppointmentData list \<times> number" where
  "optimizeRoundTripRoute appointments startLocation =
     (if length appointments \<le> 1 then
        Inr (appointments,
             (case startLocation of
                Some s \<Rightarrow>
                  if length appointments = 1
                  then jsAdd (calculateDistance s (location (appointments ! 0)))
                         (calculateDistance (location (appointments ! 0)) s)
                  else Finite 0
              | None \<Rightarrow> Finite 0))
      else
        (let origin = (case startLocation of Some s \<Rightarrow> s | None \<Rightarrow> location (appointments ! 0))
         in tryEndings appointments origin [0..<length appointments] ([], Infinity)))"

section \<open>Schedule generation (\<open>generateAppointmentTimes\<close>)\<close>

text \<open>
  A \<open>Date\<close> is an Invalid Date or a number of whole minutes from midnight of
  2024-01-01: the start time has no seconds and \<open>setMinutes\<close> keeps seconds, so every
  valid date the generator holds is on a minute. The parameter \<open>startTime\<close> is the
  date that \<open>new Date(`2024-01-01 ${startTime}`)\<close> parses. Local time is taken to be
  UTC, and daylight-saving shifts are not modelled.
\<close>

datatype date = Valid int | InvalidDate

text \<open>
  The range of \<open>Date\<close>: at most 8.64e15 milliseconds, which are 144000000000 minutes,
  on either side of the epoch; midnight of 2024-01-01 is minute 28401120 of the epoch.
\<close>

definition timeClip :: "int \<Rightarrow> date" where
  "timeClip minutes =
     (if \<bar>28401120 + minutes\<bar> \<le> 144000000000 then Valid minutes else InvalidDate)"

fun getMinutes :: "date \<Rightarrow> number" where
  "getMinutes (Valid t) = Finite (of_int (t mod 60))"
| "getMinutes InvalidDate = NaN"

text \<open>\<open>setMinutes(min)\<close> cuts the fraction of its argument off, towards zero. On an
  Invalid Date, and with an argument that is not finite, the date is invalid.\<close>

definition truncate :: "real \<Rightarrow> int" where
  "truncate x = (if 0 \<le> x then \<lfloor>x\<rfloor> else \<lceil>x\<rceil>)"

fun setMinutes :: "date \<Rightarrow> number \<Rightarrow> date" where
  "setMinutes (Valid t) (Finite minutes) = timeClip (t - t mod 60 + truncate minutes)"
| "setMinutes _ _ = InvalidDate"

text \<open>\<open>toLocaleTimeString('en-US', { hour: '2-digit', minute: '2-digit' })\<close>: the
  twelve-hour clock, as in \<open>09:05 AM\<close>.\<close>

definition twoDigits :: "int \<Rightarrow> string" where
  "twoDigits n = [''0123456789'' ! nat (n div 10), ''0123456789'' ! nat (n mod 10)]"

fun toLocaleTimeString :: "date \<Rightarrow> string" where
  "toLocaleTimeString (Valid t) =
     (let hour = (t div 60) mod 24;
          hour12 = (if hour mod 12 = 0 then 12 else hour mod 12)
      in twoDigits hour12 @ '':'' @ twoDigits (t mod 60) @
         (if hour < 12 then '' AM'' else '' PM''))"
| "toLocaleTimeString InvalidDate = ''Invalid Date''"

text \<open>
  \<open>Math.ceil(x * factor)\<close> on a \<open>number\<close>. The type has no negative infinity; the
  product of \<open>Infinity\<close> with a factor that is not positive is written NaN, which every
  use here treats alike.
\<close>

fun ceilTimes :: "number \<Rightarrow> real \<Rightarrow> number" where
  "ceilTimes (Finite x) factor = Finite (of_int \<lceil>x * factor\<rceil>)"
| "ceilTimes Infinity factor = (if 0 < factor then Infinity else NaN)"
| "ceilTimes NaN factor = NaN"

text \<open>
  The callback of \<open>route.forEach\<close>. \<open>previous\<close> is where the travel to the appointment
  starts: \<open>route[index - 1]\<close> when \<open>index > 0\<close>; at index 0 the origin when there is one,
  and nothing otherwise (then no travel time is added). The result is the list of the
  values of \<open>currentTime\<close> at each \<open>times.push\<close>, and \<open>currentTime\<close> after the loop.
\<close>

fun forEachArrival ::
  "real \<Rightarrow> Coordinates option \<Rightarrow> AppointmentData list \<Rightarrow> date \<Rightarrow> date list \<times> date" where
  "forEachArrival travelTimePerMile previous [] currentTime = ([], currentTime)"
| "forEachArrival travelTimePerMile previous (appointment # rest) currentTime =
     (let arrival =
            (case previous of
               Some p \<Rightarrow>
                 (let distance = calculateDistance p (location appointment);
                      travelMinutes = ceilTimes distance travelTimePerMile
                  in setMinutes currentTime (jsAdd (getMinutes currentTime) travelMinutes))
             | None \<Rightarrow> currentTime);
          afterwards =
            setMinutes arrival (jsAdd (getMinutes arrival) (Finite (duration appointment)));
          (arrivals, final) =
            forEachArrival travelTimePerMile (Some (location appointment)) rest afterwards
      in (arrival # arrivals, final))"

text \<open>The instants at which the stops of the route are reached, in route order.\<close>

definition arrivalInstants ::
  "AppointmentData list \<Rightarrow> int \<Rightarrow> real \<Rightarrow> Coordinates option \<Rightarrow> date list" where
  "arrivalInstants route startTime travelTimePerMile origin =
     fst (forEachArrival travelTimePerMile origin route (Valid startTime))"



text \<open>\<open>generateAppointmentTimes\<close> of the round-trip route: \<open>{ times, returnTime }\<close>.\<close>

definition generateAppointmentTimes ::
  "AppointmentData list \<Rightarrow> int \<Rightarrow> real \<Rightarrow> Coordinates option \<Rightarrow> string list \<times> string option" where
  "generateAppointmentTimes route startTime travelTimePerMile origin =
     (let (arrivals, currentTime) =
            forEachArrival travelTimePerMile origin route (Valid startTime);
          times = map toLocaleTimeString arrivals;
          returnTime =
            (case origin of
               Some home \<Rightarrow>
                 if length route > 0 then
                   (let returnDistance =
                          calculateDistance (location (route ! (length route - 1))) home;
                        returnTravelMinutes = ceilTimes returnDistance travelTimePerMile
                    in Some (toLocaleTimeString
                               (setMinutes currentTime
                                  (jsAdd (getMinutes currentTime) returnTravelMinutes))))
                 else None
             | None \<Rightarrow> None)
      in (times, returnTime))"

text \<open>\<open>generateAppointmentTimes\<close> of the open-path route: it has no origin parameter and
  adds travel time only when \<open>index > 0\<close>.\<close>

definition generateAppointmentTimesOpenPath ::
  "AppointmentData list \<Rightarrow> int \<Rightarrow> real \<Rightarrow> string list" where
  "generateAppointmentTimesOpenPath route startTime travelTimePerMile =
     map toLocaleTimeString
       (fst (forEachArrival travelTimePerMile None route (Valid startTime)))"

section \<open>The round-trip optimize handler (\<open>POST\<close>)\<close>

text \<open>
  The calls a handler makes outside its process, in order, and the response it returns.
  The appointments argument of \<open>POST_optimize\<close> is what the first
  \<open>prisma.appointment.findMany\<close> returns; the route of the response body is what the second
  one returns, the appointments in their optimized order with the order and the suggested
  time written by the updates. Failures of the database are not modelled. A body is what
  the handler passes to \<open>NextResponse.json\<close>; in the JSON text a cell that is NaN
  reads \<open>null\<close>.
\<close>

datatype call =
    PrismaFindMany
  | PrismaUpdate string nat string
  | FetchDistanceMatrix "Coordinates list" "Coordinates list"

datatype body =
    ErrorBody string
  | RoundTripBody "(AppointmentData \<times> nat \<times> string) list" number number real "string option"
  | DistanceMatrixBody "number list list"

datatype response = JsonResponse nat body

definition POST_optimize ::
  "int \<Rightarrow> Coordinates option \<Rightarrow> AppointmentData list \<Rightarrow> response \<times> call list" where
  "POST_optimize startTime startingLocation appointments =
     (if length appointments = 0 then
        (JsonResponse 400 (ErrorBody ''No appointments found to optimize''), [PrismaFindMany])
      else
        (case optimizeRoundTripRoute appointments startingLocation of
           Inl e \<Rightarrow>
             (JsonResponse 500 (ErrorBody ''Failed to optimize round-trip route''),
              [PrismaFindMany])
         | Inr (optimizedRoute, totalDistance) \<Rightarrow>
             (let (suggestedTimes, returnTime) =
                    generateAppointmentTimes optimizedRoute startTime 3 startingLocation;
                  totalAppointmentTime = sum_list (map duration optimizedRoute);
                  estimatedTotalTravelTime = ceilTimes totalDistance 3;
                  updates =
                    map (\<lambda>index. (optimizedRoute ! index, index + 1, suggestedTimes ! index))
                      [0..<length optimizedRoute]
              in (JsonResponse 200
                    (RoundTripBody updates totalDistance estimatedTotalTravelTime
                       totalAppointmentTime returnTime),
                  [PrismaFindMany]
                  @ map (\<lambda>(appointment, order, time). PrismaUpdate (id' appointment) order time)
                      updates
                  @ [PrismaFindMany]))))"

section \<open>The distance-matrix route (\<open>POST\<close> of \<open>api/distance-matrix\<close>)\<close>

text \<open>The matrix of haversine distances that every fallback builds:
  \<open>origins.map(origin => destinations.map(dest => calculateHaversineDistance(origin, dest)))\<close>.\<close>

definition haversineMatrix :: "Coordinates list \<Rightarrow> Coordinates list \<Rightarrow> number list list" where
  "haversineMatrix origins destinations =
     map (\<lambda>origin. map (\<lambda>dest. calculateDistance origin dest) destinations) origins"

text \<open>
  What the request to the distance provider comes to: the \<open>fetch\<close> (or the parsing of
  its body) throws, or there is a parsed body with its \<open>status\<close> and its \<open>rows\<close>, each
  row the list of its \<open>elements\<close>. An element has a \<open>status\<close> and, when the provider
  gave one, the \<open>distance.value\<close> in meters.
\<close>

datatype element = Element string "real option"

datatype providerResult = ProviderThrows | ProviderData string "element list list"

text \<open>
  The callback of \<open>row.elements.map\<close>. Reading \<open>value\<close> of a missing \<open>distance\<close>, and
  reading \<open>lat\<close> of an origin or destination that is \<open>undefined\<close> because the index is
  out of range, throw.
\<close>

fun convertElement ::
  "Coordinates list \<Rightarrow> Coordinates list \<Rightarrow> nat \<Rightarrow> nat \<Rightarrow> element \<Rightarrow> error + number" where
  "convertElement origins destinations originIndex destIndex (Element status distance) =
     (if status = ''OK'' then
        (case distance of
           Some v \<Rightarrow> Inr (Finite (v * 0.000621371))
         | None \<Rightarrow> Inl TypeError)
      else
        (case (nthOpt origins originIndex, nthOpt destinations destIndex) of
           (Some coord1, Some coord2) \<Rightarrow> Inr (calculateDistance coord1 coord2)
         | _ \<Rightarrow> Inl TypeError))"

text \<open>\<open>Array.prototype.map\<close> with a callback that may throw: the first exception ends it.\<close>

fun mapIndexed :: "(nat \<Rightarrow> 'a \<Rightarrow> error + 'b) \<Rightarrow> nat \<Rightarrow> 'a list \<Rightarrow> error + 'b list" where
  "mapIndexed f index [] = Inr []"
| "mapIndexed f index (x # xs) =
     (case f index x of
        Inl e \<Rightarrow> Inl e
      | Inr y \<Rightarrow>
          (case mapIndexed f (Suc index) xs of
             Inl e \<Rightarrow> Inl e
           | Inr ys \<Rightarrow> Inr (y # ys)))"

definition convertRows ::
  "Coordinates list \<Rightarrow> Coordinates list \<Rightarrow> element list list \<Rightarrow> error + number list list" where
  "convertRows origins destinations rows =
     mapIndexed
       (\<lambda>originIndex row.
          mapIndexed (\<lambda>destIndex el. convertElement origins destinations originIndex destIndex el)
            0 row)
       0 rows"

text \<open>
  The handler. \<open>session\<close> says whether there is a signed-in user; \<open>origins\<close> and
  \<open>destinations\<close> are \<open>None\<close> when the request field is not an array; \<open>apiKey\<close> is the
  environment variable (absent or empty is falsy). The inner \<open>try\<close> catches every
  exception of the conversion and answers with the haversine matrix.
\<close>

definition POST_distance_matrix ::
  "bool \<Rightarrow> Coordinates list option \<Rightarrow> Coordinates list option \<Rightarrow> string option \<Rightarrow>
   providerResult \<Rightarrow> response" where
  "POST_distance_matrix session originsField destinationsField apiKey provider =
     (if \<not> session then JsonResponse 401 (ErrorBody ''Unauthorized'')
      else
        (case (originsField, destinationsField) of
           (Some origins, Some destinations) \<Rightarrow>
             if length origins = 0 \<or> length destinations = 0 then
               JsonResponse 400 (ErrorBody ''Invalid origins or destinations provided'')
             else if apiKey = None \<or> apiKey = Some [] then
               JsonResponse 200 (DistanceMatrixBody (haversineMatrix origins destinations))
             else
               (case provider of
                  ProviderThrows \<Rightarrow>
                    JsonResponse 200 (DistanceMatrixBody (haversineMatrix origins destinations))
                | ProviderData status rows \<Rightarrow>
                    if status = ''OK'' then
                      (case convertRows origins destinations rows of
                         Inr distanceMatrix \<Rightarrow> JsonResponse 200 (DistanceMatrixBody distanceMatrix)
                       | Inl e \<Rightarrow>
                           JsonResponse 200
                             (DistanceMatrixBody (haversineMatrix origins destinations)))
                    else
                      JsonResponse 200 (DistanceMatrixBody (haversineMatrix origins destinations)))
         | _ \<Rightarrow> JsonResponse 400 (ErrorBody ''Invalid origins or destinations provided'')))"

section \<open>The client-side optimizer (\<open>optimizeRouteWithDriving\<close>)\<close>




text \<open>\<open>findIndex\<close>: the first index where the predicate holds, or -1. \<open>indexOf\<close> compares
  object identity in the source and values here; the two agree on appointments that
  differ pairwise, as the ones with pairwise distinct ids do.\<close>

fun findIndex :: "('a \<Rightarrow> bool) \<Rightarrow> 'a list \<Rightarrow> int" where
  "findIndex p [] = - 1"
| "findIndex p (x # xs) =
     (if p x then 0 else (let r = findIndex p xs in if r = - 1 then - 1 else r + 1))"















section \<open>Example data\<close>

text \<open>An appointment with the given id and coordinates, lasting thirty minutes.\<close>

definition stopAt :: "string \<Rightarrow> real \<Rightarrow> real \<Rightarrow> AppointmentData" where
  "stopAt ident la lo =
     \<lparr>id' = ident, client = ''client'', address = ''address'', appointmentType = ''visit'',
      duration = 30, notes' = None, latitude = la, longitude = lo\<rparr>"

section \<open>Evaluating the rounding\<close>

text \<open>
  A real \<open>x\<close> in the binade from \<open>2 ^ e\<close> up to \<open>2 ^ (e + 1)\<close> is rounded to \<open>k\<close> units in
  the last place, \<open>2 ^ (e - 52)\<close> each, when its quotient by the unit is less than one
  half away from \<open>k\<close>.
\<close>

lemma roundEven_unique:
  assumes "of_int k - 1 / 2 < q" and "q < of_int k + 1 / 2"
  shows "roundEven q = k"
proof (cases "q < of_int k")
  case True
  then have f: "\<lfloor>q\<rfloor> = k - 1" using assms(1) by (simp add: floor_eq_iff)
  then show ?thesis using assms(1) by (simp add: roundEven_def Let_def)
next
  case False
  then have f: "\<lfloor>q\<rfloor> = k" using assms(2) by (simp add: floor_eq_iff)
  then show ?thesis using assms(2) by (simp add: roundEven_def Let_def)
qed

lemma floor_log2_eq:
  assumes "2 powi e \<le> x" and "x < 2 powi (e + 1)"
  shows "\<lfloor>log 2 x\<rfloor> = e"
proof -
  have "(0::real) < 2 powi e" by simp
  then have x: "0 < x" using assms(1) by linarith
  have p: "(2::real) powr real_of_int k = 2 powi k" for k
    by (rule powr_real_of_int') simp_all
  have "2 powr real_of_int e \<le> x \<and> x < 2 powr real_of_int (e + 1)"
    unfolding p using assms by simp
  then show ?thesis using x floor_log_eq_powr_iff [of x 2 e] by simp
qed

lemma rnd_eval:
  assumes "2 powi e \<le> \<bar>x\<bar>" and "\<bar>x\<bar> < 2 powi (e + 1)"
    and "of_int k - 1 / 2 < x / 2 powi (e - 52)" and "x / 2 powi (e - 52) < of_int k + 1 / 2"
  shows "rnd x = of_int k * 2 powi (e - 52)"
proof -
  have "(0::real) < 2 powi e" by simp
  then have x: "x \<noteq> 0" using assms(1) by linarith
  have "\<lfloor>log 2 \<bar>x\<bar>\<rfloor> = e" using assms(1,2) by (rule floor_log2_eq)
  moreover have "roundEven (x / 2 powi (e - 52)) = k" using assms(3,4) by (rule roundEven_unique)
  ultimately show ?thesis using x by (simp add: rnd_def Let_def)
qed

text \<open>A value known between two bounds inside one binade and one rounding interval.\<close>

lemma rnd_between:
  assumes "L \<le> z" and "z \<le> U" and "2 powi e \<le> L" and "U < 2 powi (e + 1)"
    and "of_int k - 1 / 2 < L / 2 powi (e - 52)" and "U / 2 powi (e - 52) < of_int k + 1 / 2"
  shows "rnd z = of_int k * 2 powi (e - 52)"
proof (rule rnd_eval)
  have "(0::real) < 2 powi e" by simp
  then have z: "0 < z" using assms(1,3) by linarith
  show "2 powi e \<le> \<bar>z\<bar>" using assms(1,3) z by simp
  show "\<bar>z\<bar> < 2 powi (e + 1)" using assms(2,4) z by simp
  have u: "(0::real) < 2 powi (e - 52)" by simp
  have "L / 2 powi (e - 52) \<le> z / 2 powi (e - 52)" using assms(1) u by (simp add: divide_right_mono)
  then show "of_int k - 1 / 2 < z / 2 powi (e - 52)" using assms(5) by linarith
  have "z / 2 powi (e - 52) \<le> U / 2 powi (e - 52)" using assms(2) u by (simp add: divide_right_mono)
  then show "z / 2 powi (e - 52) < of_int k + 1 / 2" using assms(6) by linarith
qed

lemma rnd_between_neg:
  assumes "L \<le> z" and "z \<le> U" and "2 powi e \<le> - U" and "- L < 2 powi (e + 1)"
    and "of_int k - 1 / 2 < L / 2 powi (e - 52)" and "U / 2 powi (e - 52) < of_int k + 1 / 2"
  shows "rnd z = of_int k * 2 powi (e - 52)"
proof (rule rnd_eval)
  have "(0::real) < 2 powi e" by simp
  then have z: "z < 0" using assms(2,3) by linarith
  show "2 powi e \<le> \<bar>z\<bar>" using assms(2,3) z by simp
  show "\<bar>z\<bar> < 2 powi (e + 1)" using assms(1,4) z by simp
  have u: "(0::real) < 2 powi (e - 52)" by simp
  have "L / 2 powi (e - 52) \<le> z / 2 powi (e - 52)" using assms(1) u by (simp add: divide_right_mono)
  then show "of_int k - 1 / 2 < z / 2 powi (e - 52)" using assms(5) by linarith
  have "z / 2 powi (e - 52) \<le> U / 2 powi (e - 52)" using assms(2) u by (simp add: divide_right_mono)
  then show "z / 2 powi (e - 52) < of_int k + 1 / 2" using assms(6) by linarith
qed

lemma rnd_near_one:
  assumes "1 - 1 / 2 ^ 54 < z" and "z \<le> 1"
  shows "rnd z = 1"
proof (cases "z = 1")
  case True
  show ?thesis unfolding True using rnd_eval [of 0 1 "2 ^ 52"] by simp
next
  case False
  then have z: "z < 1" using assms(2) by simp
  have "rnd z = of_int (2 ^ 53) * 2 powi (- 1 - 52)"
  proof (rule rnd_between [of z z z])
    show "2 powi (- 1) \<le> z" using assms(1) by simp
    show "z < 2 powi (- 1 + 1)" using z by simp
    show "of_int (2 ^ 53) - 1 / 2 < z / 2 powi (- 1 - 52)" using assms(1) by simp
    show "z / 2 powi (- 1 - 52) < of_int (2 ^ 53) + 1 / 2" using z by simp
  qed simp_all
  then show ?thesis by simp
qed

lemma rnd_zero: "rnd 0 = 0"
  by (simp add: rnd_def)

lemma roundEven_nonneg: "0 \<le> q \<Longrightarrow> 0 \<le> roundEven q"
  by (simp add: roundEven_def Let_def)

lemma rnd_nonneg: "0 \<le> x \<Longrightarrow> 0 \<le> rnd x"
proof -
  assume x: "0 \<le> x"
  have "0 \<le> x / 2 powi (\<lfloor>log 2 \<bar>x\<bar>\<rfloor> - 52)" using x by simp
  then have "0 \<le> roundEven (x / 2 powi (\<lfloor>log 2 \<bar>x\<bar>\<rfloor> - 52))" by (rule roundEven_nonneg)
  then show ?thesis by (simp add: rnd_def Let_def)
qed

lemma rnd_one: "rnd 1 = 1"
  using rnd_eval [of 0 1 "2 ^ 52"] by simp





section \<open>The haversine distance of a point to itself, and its sign\<close>

lemma atan2_nonneg: "0 \<le> y \<Longrightarrow> 0 \<le> atan2 y x"
proof -
  assume y: "0 \<le> y"
  have l: "- (pi / 2) < arctan (y / x)" by (rule arctan_lbound)
  have p: "0 < pi" by (rule pi_gt_zero)
  consider "0 < x" | "x < 0" | "x = 0" by linarith
  then show ?thesis
  proof cases
    case 1
    then have "0 \<le> y / x" using y by simp
    then show ?thesis using 1 by (simp add: atan2_def zero_le_arctan_iff)
  next
    case 2
    have "0 \<le> arctan (y / x) + pi" using l p by linarith
    then show ?thesis using 2 y by (simp add: atan2_def)
  next
    case 3
    then show ?thesis using y p by (simp add: atan2_def)
  qed
qed

lemma haversine_a_self: "haversine_a coord coord = 0"
  by (simp add: haversine_a_def Let_def dsub_def dmul_def ddiv_def dadd_def Math_sin_def rnd_zero)

lemma calculateDistance_self: "calculateDistance coord coord = Finite 0"
  by (simp add: calculateDistance_def haversine_a_self Let_def Math_sqrt_def dsub_def dmul_def
      Math_atan2_def atan2_def rnd_zero rnd_one)

text \<open>A distance is NaN or a number that is not negative.\<close>

lemma calculateDistance_cases:
  "calculateDistance coord1 coord2 = NaN \<or>
   (\<exists>d. calculateDistance coord1 coord2 = Finite d \<and> 0 \<le> d)"
proof (cases "Math_sqrt (haversine_a coord1 coord2)")
  case None
  then show ?thesis by (simp add: calculateDistance_def Let_def)
next
  case (Some y)
  then have y: "0 \<le> y" by (auto simp: Math_sqrt_def rnd_nonneg split: if_splits)
  show ?thesis
  proof (cases "Math_sqrt (dsub 1 (haversine_a coord1 coord2))")
    case None
    then show ?thesis using Some by (simp add: calculateDistance_def Let_def)
  next
    case inner: (Some x)
    have "0 \<le> atan2 y x" using y by (rule atan2_nonneg)
    then have "0 \<le> Math_atan2 y x" by (simp add: Math_atan2_def rnd_nonneg)
    then have "0 \<le> dmul 2 (Math_atan2 y x)" by (simp add: dmul_def rnd_nonneg)
    then have "0 \<le> dmul 3959 (dmul 2 (Math_atan2 y x))" by (simp add: dmul_def rnd_nonneg)
    then show ?thesis using Some inner by (simp add: calculateDistance_def Let_def)
  qed
qed

lemma calculateDistance_not_negative: "\<not> jsLess (calculateDistance coord1 coord2) (Finite 0)"
  using calculateDistance_cases [of coord1 coord2] by auto

lemma calculateDistance_not_Infinity: "calculateDistance coord1 coord2 \<noteq> Infinity"
  using calculateDistance_cases [of coord1 coord2] by auto

section \<open>Enclosures of the sine and the cosine\<close>

text \<open>
  The Taylor polynomials of the sine and the cosine, with the bound on the remainder,
  enclose their values at the double nearest to 8 degrees in radians and at the half of
  \<open>Math.PI\<close>, each within less than the distance to the next rounding boundary.
\<close>

lemma sin_coeff_values:
  "sin_coeff 0 = 0" "sin_coeff 1 = 1" "sin_coeff 2 = 0" "sin_coeff 3 = - 1 / 6"
  "sin_coeff 4 = 0" "sin_coeff 5 = 1 / 120" "sin_coeff 6 = 0" "sin_coeff 7 = - 1 / 5040"
  "sin_coeff 8 = 0" "sin_coeff 9 = 1 / 362880" "sin_coeff 10 = 0"
  "sin_coeff 11 = - 1 / 39916800" "sin_coeff 12 = 0" "sin_coeff 13 = 1 / 6227020800"
  "sin_coeff 14 = 0" "sin_coeff 15 = - 1 / 1307674368000" "sin_coeff 16 = 0"
  "sin_coeff 17 = 1 / 355687428096000" "sin_coeff 18 = 0"
  "sin_coeff 19 = - 1 / 121645100408832000" "sin_coeff 20 = 0"
  "sin_coeff 21 = 1 / 51090942171709440000" "sin_coeff 22 = 0" "sin_coeff (Suc 0) = 1"
  by (simp_all add: sin_coeff_def fact_numeral)

lemma cos_coeff_values:
  "cos_coeff 0 = 1" "cos_coeff 1 = 0" "cos_coeff 2 = - 1 / 2" "cos_coeff 3 = 0"
  "cos_coeff 4 = 1 / 24" "cos_coeff 5 = 0" "cos_coeff 6 = - 1 / 720" "cos_coeff 7 = 0"
  "cos_coeff 8 = 1 / 40320" "cos_coeff 9 = 0" "cos_coeff 10 = - 1 / 3628800"
  "cos_coeff 11 = 0" "cos_coeff 12 = 1 / 479001600" "cos_coeff 13 = 0"
  "cos_coeff 14 = - 1 / 87178291200" "cos_coeff (Suc 0) = 0"
  by (simp_all add: cos_coeff_def fact_numeral)

lemma sin_sum_15:
  "(\<Sum>m<15. sin_coeff m * x ^ m) =
     x - x ^ 3 / 6 + x ^ 5 / 120 - x ^ 7 / 5040 + x ^ 9 / 362880 - x ^ 11 / 39916800
       + x ^ 13 / 6227020800"
  for x :: real
  by (simp add: lessThan_nat_numeral sin_coeff_values)

lemma cos_sum_15:
  "(\<Sum>m<15. cos_coeff m * x ^ m) =
     1 - x ^ 2 / 2 + x ^ 4 / 24 - x ^ 6 / 720 + x ^ 8 / 40320 - x ^ 10 / 3628800
       + x ^ 12 / 479001600 - x ^ 14 / 87178291200"
  for x :: real
  by (simp add: lessThan_nat_numeral cos_coeff_values)

lemma sin_sum_23:
  "(\<Sum>m<23. sin_coeff m * x ^ m) =
     x - x ^ 3 / 6 + x ^ 5 / 120 - x ^ 7 / 5040 + x ^ 9 / 362880 - x ^ 11 / 39916800
       + x ^ 13 / 6227020800 - x ^ 15 / 1307674368000 + x ^ 17 / 355687428096000
       - x ^ 19 / 121645100408832000 + x ^ 21 / 51090942171709440000"
  for x :: real
  by (simp add: lessThan_nat_numeral sin_coeff_values)

lemma Maclaurin_cos_bound:
  "\<bar>cos x - (\<Sum>m<n. cos_coeff m * x ^ m)\<bar> \<le> inverse (fact n) * \<bar>x\<bar> ^ n"
proof -
  obtain t where t: "cos x = (\<Sum>m<n. cos_coeff m * x ^ m) + cos (t + 1 / 2 * real n * pi) / fact n * x ^ n"
    using Maclaurin_cos_expansion [of x n] by blast
  have "\<bar>cos (t + 1 / 2 * real n * pi) / fact n * x ^ n\<bar>
          = \<bar>cos (t + 1 / 2 * real n * pi)\<bar> * (\<bar>x\<bar> ^ n / fact n)"
    by (simp add: abs_mult power_abs)
  also have "\<dots> \<le> 1 * (\<bar>x\<bar> ^ n / fact n)"
    by (intro mult_right_mono) simp_all
  also have "\<dots> = inverse (fact n) * \<bar>x\<bar> ^ n"
    by (simp add: inverse_eq_divide)
  finally show ?thesis using t by simp
qed

lemma sin_8_degrees_enclosure:
  "(40113915239919817 / 2 ^ 58) \<le> sin (5030569068109113 / 2 ^ 55 :: real) \<and> sin (5030569068109113 / 2 ^ 55 :: real) \<le> (320911321919358539 / 2 ^ 61)"
proof -
  define x :: real where "x = 5030569068109113 / 2 ^ 55"
  define p where "p =
       x - x ^ 3 / 6 + x ^ 5 / 120 - x ^ 7 / 5040 + x ^ 9 / 362880 - x ^ 11 / 39916800
         + x ^ 13 / 6227020800"
  have x0: "0 \<le> x" unfolding x_def by simp
  have "\<bar>sin x - (\<Sum>m<15. sin_coeff m * x ^ m)\<bar> \<le> inverse (fact 15) * \<bar>x\<bar> ^ 15"
    by (rule Maclaurin_sin_bound)
  moreover have "inverse (fact 15) * \<bar>x\<bar> ^ 15 = x ^ 15 / 1307674368000"
    using x0 by (simp add: fact_numeral)
  ultimately have b: "\<bar>sin x - p\<bar> \<le> x ^ 15 / 1307674368000"
    unfolding sin_sum_15 p_def by simp
  have l: "(40113915239919817 / 2 ^ 58) \<le> p - x ^ 15 / 1307674368000"
    unfolding p_def x_def by (simp add: power_divide)
  have u: "p + x ^ 15 / 1307674368000 \<le> (320911321919358539 / 2 ^ 61)"
    unfolding p_def x_def by (simp add: power_divide)
  have "(40113915239919817 / 2 ^ 58) \<le> sin x \<and> sin x \<le> (320911321919358539 / 2 ^ 61)" using b l u by linarith
  then show ?thesis unfolding x_def .
qed

lemma cos_8_degrees_enclosure:
  "(142712668972205977 / 2 ^ 57) \<le> cos (5030569068109113 / 2 ^ 55 :: real) \<and> cos (5030569068109113 / 2 ^ 55 :: real) \<le> (570850675888823911 / 2 ^ 59)"
proof -
  define x :: real where "x = 5030569068109113 / 2 ^ 55"
  define p where "p =
       1 - x ^ 2 / 2 + x ^ 4 / 24 - x ^ 6 / 720 + x ^ 8 / 40320 - x ^ 10 / 3628800
         + x ^ 12 / 479001600 - x ^ 14 / 87178291200"
  have x0: "0 \<le> x" unfolding x_def by simp
  have "\<bar>cos x - (\<Sum>m<15. cos_coeff m * x ^ m)\<bar> \<le> inverse (fact 15) * \<bar>x\<bar> ^ 15"
    by (rule Maclaurin_cos_bound)
  moreover have "inverse (fact 15) * \<bar>x\<bar> ^ 15 = x ^ 15 / 1307674368000"
    using x0 by (simp add: fact_numeral)
  ultimately have b: "\<bar>cos x - p\<bar> \<le> x ^ 15 / 1307674368000"
    unfolding cos_sum_15 p_def by simp
  have l: "(142712668972205977 / 2 ^ 57) \<le> p - x ^ 15 / 1307674368000"
    unfolding p_def x_def by (simp add: power_divide)
  have u: "p + x ^ 15 / 1307674368000 \<le> (570850675888823911 / 2 ^ 59)"
    unfolding p_def x_def by (simp add: power_divide)
  have "(142712668972205977 / 2 ^ 57) \<le> cos x \<and> cos x \<le> (570850675888823911 / 2 ^ 59)" using b l u by linarith
  then show ?thesis unfolding x_def .
qed

lemma sin_quarter_turn_enclosure:
  "1 - 1 / 2 ^ 55 \<le> sin (884279719003555 / 2 ^ 49 :: real)"
proof -
  define x :: real where "x = 884279719003555 / 2 ^ 49"
  define p where "p =
       x - x ^ 3 / 6 + x ^ 5 / 120 - x ^ 7 / 5040 + x ^ 9 / 362880 - x ^ 11 / 39916800
         + x ^ 13 / 6227020800 - x ^ 15 / 1307674368000 + x ^ 17 / 355687428096000
         - x ^ 19 / 121645100408832000 + x ^ 21 / 51090942171709440000"
  have x0: "0 \<le> x" unfolding x_def by simp
  have "\<bar>sin x - (\<Sum>m<23. sin_coeff m * x ^ m)\<bar> \<le> inverse (fact 23) * \<bar>x\<bar> ^ 23"
    by (rule Maclaurin_sin_bound)
  moreover have "inverse (fact 23) * \<bar>x\<bar> ^ 23 = x ^ 23 / 25852016738884976640000"
    using x0 by (simp add: fact_numeral)
  ultimately have b: "\<bar>sin x - p\<bar> \<le> x ^ 23 / 25852016738884976640000"
    unfolding sin_sum_23 p_def by simp
  have l: "1 - 1 / 2 ^ 55 \<le> p - x ^ 23 / 25852016738884976640000"
    unfolding p_def x_def by (simp add: power_divide)
  have "1 - 1 / 2 ^ 55 \<le> sin x" using b l by linarith
  then show ?thesis unfolding x_def .
qed

section \<open>The distance from (8, 0) to (-8, 180)\<close>

text \<open>
  The operations of \<open>calculateDistance\<close> on these coordinates, one by one, each with
  the double it returns: the difference of the latitudes and of the longitudes in
  radians and their halves, the two latitudes in radians, the squares and products of
  \<open>a\<close>, their sum, and \<open>1 - a\<close>.
\<close>

lemma dLat_1: "dsub (- 8) 8 = (- 16)"
  unfolding dsub_def Math_PI_def using rnd_eval [of "4" "(- 8) - 8" "(- 4503599627370496)"] by simp

lemma dLat_2: "dmul (- 16) Math_PI = (- (884279719003555 / 2 ^ 44))"
  unfolding dmul_def Math_PI_def using rnd_eval [of "5" "(- 16) * (884279719003555 / 2 ^ 48)" "(- 7074237752028440)"] by simp

lemma dLat_3: "ddiv (- (884279719003555 / 2 ^ 44)) 180 = (- (5030569068109113 / 2 ^ 54))"
  unfolding ddiv_def Math_PI_def using rnd_eval [of "(- 2)" "(- (884279719003555 / 2 ^ 44)) / 180" "(- 5030569068109113)"] by simp

lemma dLon_1: "dsub 180 0 = 180"
  unfolding dsub_def Math_PI_def using rnd_eval [of "7" "180 - 0" "6333186975989760"] by simp

lemma dLon_2: "dmul 180 Math_PI = (4974073419394997 / 2 ^ 43)"
  unfolding dmul_def Math_PI_def using rnd_eval [of "9" "180 * (884279719003555 / 2 ^ 48)" "4974073419394997"] by simp

lemma dLon_3: "ddiv (4974073419394997 / 2 ^ 43) 180 = (884279719003555 / 2 ^ 48)"
  unfolding ddiv_def Math_PI_def using rnd_eval [of "1" "(4974073419394997 / 2 ^ 43) / 180" "7074237752028440"] by simp

lemma half_dLat: "ddiv (- (5030569068109113 / 2 ^ 54)) 2 = (- (5030569068109113 / 2 ^ 55))"
  unfolding ddiv_def Math_PI_def using rnd_eval [of "(- 3)" "(- (5030569068109113 / 2 ^ 54)) / 2" "(- 5030569068109113)"] by simp

lemma half_dLon: "ddiv (884279719003555 / 2 ^ 48) 2 = (884279719003555 / 2 ^ 49)"
  unfolding ddiv_def Math_PI_def using rnd_eval [of "0" "(884279719003555 / 2 ^ 48) / 2" "7074237752028440"] by simp

lemma lat1_1: "dmul 8 Math_PI = (884279719003555 / 2 ^ 45)"
  unfolding dmul_def Math_PI_def using rnd_eval [of "4" "8 * (884279719003555 / 2 ^ 48)" "7074237752028440"] by simp

lemma lat1_2: "ddiv (884279719003555 / 2 ^ 45) 180 = (5030569068109113 / 2 ^ 55)"
  unfolding ddiv_def Math_PI_def using rnd_eval [of "(- 3)" "(884279719003555 / 2 ^ 45) / 180" "5030569068109113"] by simp

lemma lat2_1: "dmul (- 8) Math_PI = (- (884279719003555 / 2 ^ 45))"
  unfolding dmul_def Math_PI_def using rnd_eval [of "4" "(- 8) * (884279719003555 / 2 ^ 48)" "(- 7074237752028440)"] by simp

lemma lat2_2: "ddiv (- (884279719003555 / 2 ^ 45)) 180 = (- (5030569068109113 / 2 ^ 55))"
  unfolding ddiv_def Math_PI_def using rnd_eval [of "(- 3)" "(- (884279719003555 / 2 ^ 45)) / 180" "(- 5030569068109113)"] by simp

lemma sq_sin: "dmul (- (5014239404989977 / 2 ^ 55)) (- (5014239404989977 / 2 ^ 55)) = (1395694493897217 / 2 ^ 56)"
  unfolding dmul_def Math_PI_def using rnd_eval [of "(- 6)" "(- (5014239404989977 / 2 ^ 55)) * (- (5014239404989977 / 2 ^ 55))" "5582777975588868"] by simp

lemma sq_cos: "dmul (4459770905381437 / 2 ^ 52) (4459770905381437 / 2 ^ 52) = (8832737443003841 / 2 ^ 53)"
  unfolding dmul_def Math_PI_def using rnd_eval [of "(- 1)" "(4459770905381437 / 2 ^ 52) * (4459770905381437 / 2 ^ 52)" "8832737443003841"] by simp

lemma times_one: "dmul (8832737443003841 / 2 ^ 53) 1 = (8832737443003841 / 2 ^ 53)"
  unfolding dmul_def Math_PI_def using rnd_eval [of "(- 1)" "(8832737443003841 / 2 ^ 53) * 1" "8832737443003841"] by simp

lemma sum_a: "dadd (1395694493897217 / 2 ^ 56) (8832737443003841 / 2 ^ 53) = (4503599627370497 / 2 ^ 52)"
  unfolding dadd_def Math_PI_def using rnd_eval [of "0" "(1395694493897217 / 2 ^ 56) + (8832737443003841 / 2 ^ 53)" "4503599627370497"] by simp

lemma one_minus_a: "dsub 1 (4503599627370497 / 2 ^ 52) = (- (1 / 2 ^ 52))"
  unfolding dsub_def Math_PI_def using rnd_eval [of "(- 52)" "1 - (4503599627370497 / 2 ^ 52)" "(- 4503599627370496)"] by simp

text \<open>The values of \<open>Math.sin\<close> and \<open>Math.cos\<close> at these angles.\<close>

lemma Math_sin_8_degrees_back:
  "Math_sin (- (5030569068109113 / 2 ^ 55)) = - (5014239404989977 / 2 ^ 55)"
proof -
  have "- (320911321919358539 / 2 ^ 61) \<le> sin (- (5030569068109113 / 2 ^ 55) :: real) \<and> sin (- (5030569068109113 / 2 ^ 55) :: real) \<le> - (40113915239919817 / 2 ^ 58)"
    using sin_8_degrees_enclosure by simp
  then have "rnd (sin (- (5030569068109113 / 2 ^ 55))) = of_int ((- 5014239404989977)) * 2 powi ((- 3) - 52)"
    by (intro rnd_between_neg [of "- (320911321919358539 / 2 ^ 61)" _ "- (40113915239919817 / 2 ^ 58)"]) simp_all
  then show ?thesis by (simp add: Math_sin_def)
qed

lemma Math_cos_8_degrees:
  "Math_cos (5030569068109113 / 2 ^ 55) = 4459770905381437 / 2 ^ 52"
proof -
  have "rnd (cos (5030569068109113 / 2 ^ 55)) = of_int 8919541810762874 * 2 powi ((- 1) - 52)"
    using cos_8_degrees_enclosure
    by (intro rnd_between [of "142712668972205977 / 2 ^ 57" _ "570850675888823911 / 2 ^ 59"]) simp_all
  then show ?thesis by (simp add: Math_cos_def)
qed

lemma Math_cos_8_degrees_south:
  "Math_cos (- (5030569068109113 / 2 ^ 55)) = 4459770905381437 / 2 ^ 52"
  using Math_cos_8_degrees by (simp add: Math_cos_def)

lemma Math_sin_quarter_turn:
  "Math_sin (884279719003555 / 2 ^ 49) = 1"
proof -
  have "1 - 1 / 2 ^ 54 < sin (884279719003555 / 2 ^ 49 :: real)"
    using sin_quarter_turn_enclosure by simp
  then show ?thesis unfolding Math_sin_def by (intro rnd_near_one) simp_all
qed

lemma haversine_a_near_antipodes:
  "haversine_a \<lparr>lat = 8, lng = 0\<rparr> \<lparr>lat = - 8, lng = 180\<rparr> = 4503599627370497 / 2 ^ 52"
  unfolding haversine_a_def Let_def
  by (simp only: Coordinates.select_convs dLat_1 dLat_2 dLat_3 dLon_1 dLon_2 dLon_3 half_dLat
      half_dLon lat1_1 lat1_2 lat2_1 lat2_2 Math_sin_8_degrees_back Math_cos_8_degrees
      Math_cos_8_degrees_south Math_sin_quarter_turn sq_sin sq_cos times_one sum_a)

text \<open>
  \<open>a\<close> is the double next above 1, so \<open>1 - a\<close> is negative, its square root is NaN,
  and the distance is NaN.
\<close>

lemma calculateDistance_near_antipodes:
  "calculateDistance \<lparr>lat = 8, lng = 0\<rparr> \<lparr>lat = - 8, lng = 180\<rparr> = NaN"
  unfolding calculateDistance_def Let_def haversine_a_near_antipodes one_minus_a
  by (simp add: Math_sqrt_def)

section \<open>A distance that is a number: half a turn along the equator\<close>



section \<open>The open-path route\<close>

lemma forEachNearest_index:
  "fst (forEachNearest c xs i st) = fst st \<or>
   (i \<le> fst (forEachNearest c xs i st) \<and> fst (forEachNearest c xs i st) < i + length xs)"
proof (induction xs arbitrary: i st)
  case Nil
  then show ?case by simp
next
  case (Cons x xs)
  obtain n d where st: "st = (n, d)" by (cases st)
  show ?case
  proof (cases "jsLess (calculateDistance c (location x)) d")
    case True
    then show ?thesis using Cons.IH [of "Suc i" "(i, calculateDistance c (location x))"]
      by (auto simp: st)
  next
    case False
    then show ?thesis using Cons.IH [of "Suc i" "(n, d)"] by (auto simp: st)
  qed
qed

lemma forEachNearest_in_range:
  "xs \<noteq> [] \<Longrightarrow> fst (forEachNearest c xs 0 (0, d)) < length xs"
  using forEachNearest_index [of c xs 0 "(0, d)"] by auto

lemma mset_splice: "i < length xs \<Longrightarrow> add_mset (xs ! i) (mset (spliceOne xs i)) = mset xs"
proof -
  assume i: "i < length xs"
  then have "xs = take i xs @ xs ! i # drop (Suc i) xs" by (rule id_take_nth_drop)
  then have "mset xs = mset (take i xs @ xs ! i # drop (Suc i) xs)" by simp
  then show ?thesis by (simp add: spliceOne_def)
qed

lemma optimizeRouteWhile_result:
  "\<exists>res. optimizeRouteWhile unvisited route cur = Inr (route @ res) \<and> mset res = mset unvisited"
proof (induction unvisited route cur rule: optimizeRouteWhile.induct)
  case (1 unvisited route cur)
  show ?case
  proof (cases "unvisited = []")
    case True
    then show ?thesis by (simp add: optimizeRouteWhile.simps)
  next
    case False
    define n where "n = fst (forEachNearest cur unvisited 0 (0, Infinity))"
    have n: "n < length unvisited" unfolding n_def using False by (rule forEachNearest_in_range)
    from "1.IH" [OF _ n_def n] False obtain res where
      res: "optimizeRouteWhile (spliceOne unvisited n) (route @ [unvisited ! n]) (location (unvisited ! n))
            = Inr ((route @ [unvisited ! n]) @ res)"
      and m: "mset res = mset (spliceOne unvisited n)" by auto
    have "optimizeRouteWhile unvisited route cur = Inr (route @ (unvisited ! n # res))"
      using False n res by (subst optimizeRouteWhile.simps) (simp add: n_def Let_def)
    moreover have "mset (unvisited ! n # res) = mset unvisited"
      using m mset_splice [OF n] by simp
    ultimately show ?thesis by blast
  qed
qed

text \<open>
  C2. For every non-empty list of appointments and any optional starting location,
  \<open>optimizeRoute\<close> returns (it does not throw) a permutation of its input: the route
  has the multiset of appointments of the input, so each input appointment appears as
  often as in the input, none is omitted or duplicated, and the lengths agree.
\<close>

theorem optimizeRoute_permutation:
  assumes "appointments \<noteq> []"
  shows "\<exists>route. optimizeRoute appointments startLocation = Inr route \<and>
           mset route = mset appointments \<and> length route = length appointments"
proof (cases "length appointments \<le> 1")
  case True
  then show ?thesis by (simp add: optimizeRoute_def)
next
  case False
  obtain res where
    "optimizeRouteWhile appointments []
       (case startLocation of Some s \<Rightarrow> s | None \<Rightarrow> location (appointments ! 0)) = Inr ([] @ res)"
    and m: "mset res = mset appointments"
    using optimizeRouteWhile_result by blast
  then have "optimizeRoute appointments startLocation = Inr res"
    using False by (simp add: optimizeRoute_def)
  moreover have "length res = length appointments" using m by (rule mset_eq_length)
  ultimately show ?thesis using m by blast
qed

theorem optimizeRoute_permutation_witness:
  "[stopAt ''a'' 0 0, stopAt ''b'' 0 180] \<noteq> [] \<and>
   (\<exists>route. optimizeRoute [stopAt ''a'' 0 0, stopAt ''b'' 0 180] (Some \<lparr>lat = 0, lng = 180\<rparr>)
              = Inr route \<and>
            mset route = mset [stopAt ''a'' 0 0, stopAt ''b'' 0 180] \<and>
            length route = length [stopAt ''a'' 0 0, stopAt ''b'' 0 180])"
  using optimizeRoute_permutation
    [of "[stopAt ''a'' 0 0, stopAt ''b'' 0 180]" "Some \<lparr>lat = 0, lng = 180\<rparr>"]
  by simp

lemma forEachNearest_zero:
  "forEachNearest c xs i (n, Finite 0) = (n, Finite 0)"
proof (induction xs arbitrary: i)
  case Nil
  show ?case by simp
next
  case (Cons x xs)
  have "\<not> jsLess (calculateDistance c (location x)) (Finite 0)"
    by (rule calculateDistance_not_negative)
  then show ?case using Cons.IH by (simp add: Let_def)
qed

lemma forEachNearest_own_location:
  "fst (forEachNearest (location x) (x # xs) 0 (0, Infinity)) = 0"
  by (simp add: calculateDistance_self forEachNearest_zero)

text \<open>
  C9. In open-path mode with no starting location, the first element of the route that
  \<open>optimizeRoute\<close> returns is the first appointment of the input, for every non-empty
  input: the search starts at the first appointment's own coordinates, where its distance
  is 0 and no distance is smaller.
\<close>

theorem optimizeRoute_no_origin_first:
  assumes "appointments \<noteq> []"
  shows "\<exists>route. optimizeRoute appointments None = Inr route \<and> route \<noteq> [] \<and>
           route ! 0 = appointments ! 0"
proof (cases "length appointments \<le> 1")
  case True
  then show ?thesis using assms by (simp add: optimizeRoute_def)
next
  case False
  obtain x xs where a: "appointments = x # xs" using assms by (cases appointments) auto
  obtain res where
    "optimizeRouteWhile (spliceOne appointments 0) ([] @ [x]) (location x) = Inr (([] @ [x]) @ res)"
    using optimizeRouteWhile_result by blast
  then have "optimizeRouteWhile appointments [] (location x) = Inr (x # res)"
    using forEachNearest_own_location [of x xs]
    by (subst optimizeRouteWhile.simps) (simp add: a Let_def)
  then have "optimizeRoute appointments None = Inr (x # res)"
    using False by (simp add: optimizeRoute_def a)
  then show ?thesis by (simp add: a)
qed

theorem optimizeRoute_no_origin_first_witness:
  "[stopAt ''a'' 0 0, stopAt ''b'' 0 180] \<noteq> [] \<and>
   (\<exists>route. optimizeRoute [stopAt ''a'' 0 0, stopAt ''b'' 0 180] None = Inr route \<and>
            route \<noteq> [] \<and> route ! 0 = [stopAt ''a'' 0 0, stopAt ''b'' 0 180] ! 0)"
  using optimizeRoute_no_origin_first [of "[stopAt ''a'' 0 0, stopAt ''b'' 0 180]"]
  by simp

section \<open>The route with a forced final stop\<close>

lemma location_stopAt: "location (stopAt ident la lo) = \<lparr>lat = la, lng = lo\<rparr>"
  by (simp add: location_def stopAt_def)

lemma id_stopAt: "id' (stopAt ident la lo) = ident"
  by (simp add: stopAt_def)

lemma duration_stopAt: "duration (stopAt ident la lo) = 30"
  by (simp add: stopAt_def)

text \<open>
  The scan of one iteration, started before position \<open>i\<close> of the list: it returns, and
  either it leaves the loop variables as they were, or the index it found is the position
  of an appointment other than the target. It leaves the sentinel \<open>Infinity\<close> in place
  only when every appointment of the list is the target or is at a distance that is NaN.
\<close>

lemma forEachNearestExcept_scan:
  assumes "1 < len"
  shows "\<exists>n' d'. forEachNearestExcept c len (Some t) xs i (n, d) = Inr (n', d') \<and>
           ((n' = n \<and> d' = d \<and>
             (d = Infinity \<longrightarrow>
                (\<forall>x\<in>set xs. id' x = id' t \<or> calculateDistance c (location x) = NaN))) \<or>
            (i \<le> n' \<and> n' < i + length xs \<and> id' (xs ! (n' - i)) \<noteq> id' t))"
proof (induction xs arbitrary: i n d)
  case Nil
  show ?case by simp
next
  case (Cons x xs)
  show ?case
  proof (cases "id' x = id' t")
    case True
    from Cons.IH [of "Suc i" n d] obtain n' d' where
      r: "forEachNearestExcept c len (Some t) xs (Suc i) (n, d) = Inr (n', d')"
      and alt: "(n' = n \<and> d' = d \<and>
                 (d = Infinity \<longrightarrow>
                    (\<forall>x\<in>set xs. id' x = id' t \<or> calculateDistance c (location x) = NaN))) \<or>
            (Suc i \<le> n' \<and> n' < Suc i + length xs \<and> id' (xs ! (n' - Suc i)) \<noteq> id' t)"
      by blast
    have "forEachNearestExcept c len (Some t) (x # xs) i (n, d) = Inr (n', d')"
      using True assms r by (simp add: isTargetEnd_def)
    moreover from alt have "(n' = n \<and> d' = d \<and>
              (d = Infinity \<longrightarrow>
                 (\<forall>y\<in>set (x # xs). id' y = id' t \<or> calculateDistance c (location y) = NaN))) \<or>
            (i \<le> n' \<and> n' < i + length (x # xs) \<and> id' ((x # xs) ! (n' - i)) \<noteq> id' t)"
    proof
      assume "n' = n \<and> d' = d \<and>
                 (d = Infinity \<longrightarrow>
                    (\<forall>x\<in>set xs. id' x = id' t \<or> calculateDistance c (location x) = NaN))"
      then show ?thesis using True by simp
    next
      assume a: "Suc i \<le> n' \<and> n' < Suc i + length xs \<and> id' (xs ! (n' - Suc i)) \<noteq> id' t"
      then have "n' - i = Suc (n' - Suc i)" by linarith
      then show ?thesis using a by simp
    qed
    ultimately show ?thesis by blast
  next
    case False
    define dist where "dist = calculateDistance c (location x)"
    show ?thesis
    proof (cases "jsLess dist d")
      case True
      from Cons.IH [of "Suc i" i dist] obtain n' d' where
        r: "forEachNearestExcept c len (Some t) xs (Suc i) (i, dist) = Inr (n', d')"
        and alt: "(n' = i \<and> d' = dist \<and>
                   (dist = Infinity \<longrightarrow>
                      (\<forall>x\<in>set xs. id' x = id' t \<or> calculateDistance c (location x) = NaN))) \<or>
            (Suc i \<le> n' \<and> n' < Suc i + length xs \<and> id' (xs ! (n' - Suc i)) \<noteq> id' t)"
        by blast
      have "forEachNearestExcept c len (Some t) (x # xs) i (n, d) = Inr (n', d')"
        using False True assms r by (simp add: isTargetEnd_def dist_def Let_def)
      moreover from alt
      have "i \<le> n' \<and> n' < i + length (x # xs) \<and> id' ((x # xs) ! (n' - i)) \<noteq> id' t"
      proof
        assume "n' = i \<and> d' = dist \<and>
                   (dist = Infinity \<longrightarrow>
                      (\<forall>x\<in>set xs. id' x = id' t \<or> calculateDistance c (location x) = NaN))"
        then show ?thesis using False by simp
      next
        assume a: "Suc i \<le> n' \<and> n' < Suc i + length xs \<and> id' (xs ! (n' - Suc i)) \<noteq> id' t"
        then have "n' - i = Suc (n' - Suc i)" by linarith
        then show ?thesis using a by simp
      qed
      ultimately show ?thesis by blast
    next
      case notless: False
      have nan: "dist = NaN" if "d = Infinity"
        using notless that calculateDistance_cases [of c "location x"]
        by (auto simp: dist_def)
      from Cons.IH [of "Suc i" n d] obtain n' d' where
        r: "forEachNearestExcept c len (Some t) xs (Suc i) (n, d) = Inr (n', d')"
        and alt: "(n' = n \<and> d' = d \<and>
                   (d = Infinity \<longrightarrow>
                      (\<forall>x\<in>set xs. id' x = id' t \<or> calculateDistance c (location x) = NaN))) \<or>
            (Suc i \<le> n' \<and> n' < Suc i + length xs \<and> id' (xs ! (n' - Suc i)) \<noteq> id' t)"
        by blast
      have "forEachNearestExcept c len (Some t) (x # xs) i (n, d) = Inr (n', d')"
        using False notless assms r by (simp add: isTargetEnd_def dist_def Let_def)
      moreover from alt have "(n' = n \<and> d' = d \<and>
              (d = Infinity \<longrightarrow>
                 (\<forall>y\<in>set (x # xs). id' y = id' t \<or> calculateDistance c (location y) = NaN))) \<or>
            (i \<le> n' \<and> n' < i + length (x # xs) \<and> id' ((x # xs) ! (n' - i)) \<noteq> id' t)"
      proof
        assume "n' = n \<and> d' = d \<and>
                   (d = Infinity \<longrightarrow>
                      (\<forall>x\<in>set xs. id' x = id' t \<or> calculateDistance c (location x) = NaN))"
        then show ?thesis using nan by (simp add: dist_def)
      next
        assume a: "Suc i \<le> n' \<and> n' < Suc i + length xs \<and> id' (xs ! (n' - Suc i)) \<noteq> id' t"
        then have "n' - i = Suc (n' - Suc i)" by linarith
        then show ?thesis using a by simp
      qed
      ultimately show ?thesis by blast
    qed
  qed
qed

text \<open>From the initial state of the loop body: the index found is in range, and it is not
  the target's whenever some other appointment is left at a distance that is a number.\<close>

lemma forEachNearestExcept_start:
  assumes "1 < length xs"
  shows "\<exists>n' d'. forEachNearestExcept c (length xs) (Some t) xs 0 (0, Infinity) = Inr (n', d') \<and>
           n' < length xs \<and>
           ((\<exists>x\<in>set xs. id' x \<noteq> id' t \<and> calculateDistance c (location x) \<noteq> NaN)
              \<longrightarrow> id' (xs ! n') \<noteq> id' t)"
proof -
  from forEachNearestExcept_scan [OF assms, of c t xs 0 0 Infinity] obtain n' d' where
    r: "forEachNearestExcept c (length xs) (Some t) xs 0 (0, Infinity) = Inr (n', d')"
    and alt: "(n' = 0 \<and> d' = Infinity \<and>
               (Infinity = Infinity \<longrightarrow>
                  (\<forall>x\<in>set xs. id' x = id' t \<or> calculateDistance c (location x) = NaN))) \<or>
            (0 \<le> n' \<and> n' < 0 + length xs \<and> id' (xs ! (n' - 0)) \<noteq> id' t)"
    by blast
  from alt have "n' < length xs \<and>
      ((\<exists>x\<in>set xs. id' x \<noteq> id' t \<and> calculateDistance c (location x) \<noteq> NaN)
         \<longrightarrow> id' (xs ! n') \<noteq> id' t)"
    using assms by auto
  with r show ?thesis by blast
qed

lemma set_splice: "i < length xs \<Longrightarrow> set xs = insert (xs ! i) (set (spliceOne xs i))"
proof -
  assume "i < length xs"
  then have "add_mset (xs ! i) (mset (spliceOne xs i)) = mset xs" by (rule mset_splice)
  then have "set_mset (mset xs) = set_mset (add_mset (xs ! i) (mset (spliceOne xs i)))" by simp
  then show ?thesis by simp
qed

lemma distinct_map_splice:
  assumes "distinct (map f xs)"
  shows "distinct (map f (spliceOne xs i))"
proof -
  have "map f (spliceOne xs i) = take i (map f xs) @ drop (Suc i) (map f xs)"
    by (simp add: spliceOne_def take_map drop_map)
  moreover have "set (take i (map f xs)) \<inter> set (drop (Suc i) (map f xs)) = {}"
    using assms by (intro set_take_disj_set_drop_if_distinct) auto
  ultimately show ?thesis using assms by (simp add: distinct_take distinct_drop)
qed

text \<open>Whatever the distances are, the loop returns a permutation of what it was given.\<close>

lemma optimizeSingleRouteWhile_permutation:
  "\<exists>res. optimizeSingleRouteWhile (Some t) unvisited route cur = Inr (route @ res) \<and>
         mset res = mset unvisited"
proof (induction "Some t" unvisited route cur rule: optimizeSingleRouteWhile.induct)
  case (1 unvisited route cur)
  consider "unvisited = []" | "length unvisited = 1" | "1 < length unvisited"
    by (cases unvisited) (auto simp: not_less le_Suc_eq)
  then show ?case
  proof cases
    case 1
    then show ?thesis by (simp add: optimizeSingleRouteWhile.simps)
  next
    case 2
    then obtain x where "unvisited = [x]" by (cases unvisited) auto
    then show ?thesis by (simp add: optimizeSingleRouteWhile.simps)
  next
    case 3
    from forEachNearestExcept_start [OF 3, of cur t] obtain n d where
      r: "forEachNearestExcept cur (length unvisited) (Some t) unvisited 0 (0, Infinity) = Inr (n, d)"
      and n: "n < length unvisited" by blast
    have "\<exists>res. optimizeSingleRouteWhile (Some t) (spliceOne unvisited n) (route @ [unvisited ! n])
             (location (unvisited ! n)) = Inr ((route @ [unvisited ! n]) @ res) \<and>
           mset res = mset (spliceOne unvisited n)"
      using 3 r n by (intro "1.hyps") auto
    then obtain res where
      res: "optimizeSingleRouteWhile (Some t) (spliceOne unvisited n) (route @ [unvisited ! n])
             (location (unvisited ! n)) = Inr ((route @ [unvisited ! n]) @ res)"
      and m: "mset res = mset (spliceOne unvisited n)" by blast
    have "optimizeSingleRouteWhile (Some t) unvisited route cur = Inr (route @ (unvisited ! n # res))"
      using 3 r n res by (subst optimizeSingleRouteWhile.simps) auto
    moreover have "mset (unvisited ! n # res) = mset unvisited"
      using m mset_splice [OF n] by simp
    ultimately show ?thesis by blast
  qed
qed

text \<open>
  Where no distance the loop computes is NaN (from the current location and from each
  stop to each stop), the target is selected last.
\<close>

lemma optimizeSingleRouteWhile_target_last:
  assumes "distinct (map id' unvisited)" and "t \<in> set unvisited"
    and "\<forall>y\<in>set unvisited. calculateDistance cur (location y) \<noteq> NaN"
    and "\<forall>x\<in>set unvisited. \<forall>y\<in>set unvisited.
           calculateDistance (location x) (location y) \<noteq> NaN"
  shows "\<exists>res. optimizeSingleRouteWhile (Some t) unvisited route cur = Inr (route @ res @ [t]) \<and>
           (\<forall>x\<in>set res. id' x \<noteq> id' t)"
  using assms
proof (induction "Some t" unvisited route cur rule: optimizeSingleRouteWhile.induct)
  case (1 unvisited route cur)
  have ne: "unvisited \<noteq> []" using "1.prems" by auto
  show ?case
  proof (cases "length unvisited = 1")
    case True
    then obtain x where "unvisited = [x]" by (cases unvisited) auto
    then have "unvisited = [t]" using "1.prems" by simp
    then have "optimizeSingleRouteWhile (Some t) unvisited route cur = Inr (route @ [] @ [t])"
      by (simp add: optimizeSingleRouteWhile.simps)
    then show ?thesis by (intro exI [of _ "[]"]) simp
  next
    case False
    then have len: "1 < length unvisited" using ne by (cases unvisited) auto
    have "\<exists>x\<in>set unvisited. id' x \<noteq> id' t"
    proof (rule ccontr)
      assume "\<not> (\<exists>x\<in>set unvisited. id' x \<noteq> id' t)"
      then have "set (map id' unvisited) \<subseteq> {id' t}" by auto
      then have "card (set (map id' unvisited)) \<le> 1"
        by (metis card_mono finite.emptyI finite.insertI is_singletonI is_singleton_altdef)
      moreover have "card (set (map id' unvisited)) = length unvisited"
        using "1.prems"(1) distinct_card by fastforce
      ultimately show False using len by simp
    qed
    then have other: "\<exists>x\<in>set unvisited. id' x \<noteq> id' t \<and> calculateDistance cur (location x) \<noteq> NaN"
      using "1.prems"(3) by blast
    from forEachNearestExcept_start [OF len, of cur t] other obtain n d where
      r: "forEachNearestExcept cur (length unvisited) (Some t) unvisited 0 (0, Infinity) = Inr (n, d)"
      and n: "n < length unvisited" and nt: "id' (unvisited ! n) \<noteq> id' t" by blast
    have sub: "set (spliceOne unvisited n) \<subseteq> set unvisited" using set_splice [OF n] by auto
    have mem: "unvisited ! n \<in> set unvisited" using n by simp
    have d': "distinct (map id' (spliceOne unvisited n))"
      using "1.prems"(1) by (rule distinct_map_splice)
    have t': "t \<in> set (spliceOne unvisited n)"
      using "1.prems"(2) set_splice [OF n] nt by auto
    have c': "\<forall>y\<in>set (spliceOne unvisited n).
                calculateDistance (location (unvisited ! n)) (location y) \<noteq> NaN"
      using "1.prems"(4) sub mem by blast
    have p': "\<forall>x\<in>set (spliceOne unvisited n). \<forall>y\<in>set (spliceOne unvisited n).
                calculateDistance (location x) (location y) \<noteq> NaN"
      using "1.prems"(4) sub by blast
    have "\<exists>res. optimizeSingleRouteWhile (Some t) (spliceOne unvisited n) (route @ [unvisited ! n])
             (location (unvisited ! n)) = Inr ((route @ [unvisited ! n]) @ res @ [t]) \<and>
           (\<forall>x\<in>set res. id' x \<noteq> id' t)"
      using len r n d' t' c' p' by (intro "1.hyps") auto
    then obtain res where
      res: "optimizeSingleRouteWhile (Some t) (spliceOne unvisited n) (route @ [unvisited ! n])
             (location (unvisited ! n)) = Inr ((route @ [unvisited ! n]) @ res @ [t])"
      and o: "\<forall>x\<in>set res. id' x \<noteq> id' t" by blast
    have "optimizeSingleRouteWhile (Some t) unvisited route cur
            = Inr (route @ (unvisited ! n # res) @ [t])"
      using len r n res by (subst optimizeSingleRouteWhile.simps) auto
    moreover have "\<forall>x\<in>set (unvisited ! n # res). id' x \<noteq> id' t" using o nt by simp
    ultimately show ?thesis by blast
  qed
qed

lemma optimizeSingleRoute_returns:
  assumes "k < length appointments"
  shows "\<exists>route. optimizeSingleRoute appointments origin k = Inr route \<and>
           mset route = mset appointments"
  using optimizeSingleRouteWhile_permutation [of "appointments ! k" appointments "[]" origin] assms
  by (simp add: optimizeSingleRoute_def nthOpt_def)

text \<open>
  On at least two appointments with pairwise distinct ids, where no distance from the
  origin or between two stops is NaN, the route with appointment \<open>k\<close> as the forced final
  stop ends with it, holds it nowhere before, and is a permutation of the input.
\<close>

lemma optimizeSingleRoute_ends_with_target_unless_NaN:
  assumes "2 \<le> length appointments" and "distinct (map id' appointments)"
    and "k < length appointments"
    and "\<forall>y\<in>set appointments. calculateDistance origin (location y) \<noteq> NaN"
    and "\<forall>x\<in>set appointments. \<forall>y\<in>set appointments.
           calculateDistance (location x) (location y) \<noteq> NaN"
  shows "\<exists>route. optimizeSingleRoute appointments origin k = Inr route \<and>
           route \<noteq> [] \<and> last route = appointments ! k \<and>
           (\<forall>x\<in>set (butlast route). id' x \<noteq> id' (appointments ! k)) \<and>
           mset route = mset appointments"
proof -
  have t: "appointments ! k \<in> set appointments" using assms(3) by simp
  from optimizeSingleRouteWhile_target_last [OF assms(2) t assms(4) assms(5), of "[]"] obtain res where
    r: "optimizeSingleRouteWhile (Some (appointments ! k)) appointments [] origin
          = Inr ([] @ res @ [appointments ! k])"
    and o: "\<forall>x\<in>set res. id' x \<noteq> id' (appointments ! k)" by blast
  from optimizeSingleRouteWhile_permutation [of "appointments ! k" appointments "[]" origin]
  obtain res' where
    "optimizeSingleRouteWhile (Some (appointments ! k)) appointments [] origin = Inr ([] @ res')"
    and m: "mset res' = mset appointments" by blast
  with r have m': "mset (res @ [appointments ! k]) = mset appointments" by simp
  have "optimizeSingleRoute appointments origin k = Inr (res @ [appointments ! k])"
    using r assms(3) by (simp add: optimizeSingleRoute_def nthOpt_def)
  then show ?thesis using o m' by simp
qed

text \<open>
  C3. On the two appointments \<open>t\<close> at (8, 0) and \<open>x\<close> at (-8, 180), from the origin
  (8, 0) and with \<open>t\<close> as the forced final stop, \<open>optimizeSingleRoute\<close> returns the route
  \<open>[t, x]\<close>: its last element is \<open>x\<close>, and the forced-final appointment \<open>t\<close> is selected
  while \<open>x\<close> is unvisited. The distance from the origin to \<open>x\<close> is NaN, the comparison
  \<open>distance < nearestDistance\<close> is false on it, and \<open>nearestIndex\<close> stays 0, the index of
  \<open>t\<close>. Where no distance is NaN the route ends with the forced final stop, by lemma
  \<open>optimizeSingleRoute_ends_with_target_unless_NaN\<close>.
\<close>

theorem optimizeSingleRoute_target_first:
  "optimizeSingleRoute [stopAt ''t'' 8 0, stopAt ''x'' (- 8) 180] \<lparr>lat = 8, lng = 0\<rparr> 0
     = Inr [stopAt ''t'' 8 0, stopAt ''x'' (- 8) 180]"
  by (simp add: optimizeSingleRoute_def nthOpt_def optimizeSingleRouteWhile.simps isTargetEnd_def
      spliceOne_def location_stopAt id_stopAt Let_def calculateDistance_near_antipodes)

section \<open>The round-trip optimizer\<close>

lemma jsLess_irrefl: "\<not> jsLess x x"
  by (cases x) auto

lemma jsLess_trans: "jsLess x y \<Longrightarrow> jsLess y z \<Longrightarrow> jsLess x z"
  by (cases x; cases y; cases z) auto

lemma jsAdd_zero: "jsAdd (Finite 0) x = x"
  by (cases x) auto

lemma jsAdd_assoc: "jsAdd (jsAdd x y) z = jsAdd x (jsAdd y z)"
  by (cases x; cases y; cases z) auto

text \<open>
  The search over the endings returns, when every candidate is built: it keeps the pair
  it started from when no candidate's total is below that pair's, and otherwise holds a
  candidate with its total, below which no candidate's total is.
\<close>

lemma tryEndings_best:
  assumes "\<forall>k\<in>set ks. optimizeSingleRoute apps origin k = Inr (cand k)"
  shows "\<exists>r d. tryEndings apps origin ks (br, bd) = Inr (r, d) \<and>
     ((r = br \<and> d = bd \<and>
        (\<forall>k\<in>set ks. \<not> jsLess (calculateRoundTripDistance (cand k) origin) bd)) \<or>
      (\<exists>k\<in>set ks. r = cand k \<and> d = calculateRoundTripDistance (cand k) origin \<and>
         jsLess (calculateRoundTripDistance (cand k) origin) bd \<and>
         (\<forall>j\<in>set ks. \<not> jsLess (calculateRoundTripDistance (cand j) origin)
                               (calculateRoundTripDistance (cand k) origin))))"
  using assms
proof (induction ks arbitrary: br bd)
  case Nil
  show ?case by simp
next
  case (Cons k ks)
  define cost where "cost j = calculateRoundTripDistance (cand j) origin" for j
  have ck: "optimizeSingleRoute apps origin k = Inr (cand k)" using Cons.prems by simp
  have rest: "\<forall>k\<in>set ks. optimizeSingleRoute apps origin k = Inr (cand k)"
    using Cons.prems by simp
  show ?case
  proof (cases "jsLess (cost k) bd")
    case True
    from Cons.IH [OF rest, of "cand k" "cost k"] obtain r d where
      r: "tryEndings apps origin ks (cand k, cost k) = Inr (r, d)"
      and alt: "(r = cand k \<and> d = cost k \<and> (\<forall>j\<in>set ks. \<not> jsLess (cost j) (cost k))) \<or>
                (\<exists>j\<in>set ks. r = cand j \<and> d = cost j \<and> jsLess (cost j) (cost k) \<and>
                   (\<forall>i\<in>set ks. \<not> jsLess (cost i) (cost j)))"
      unfolding cost_def by blast
    have e: "tryEndings apps origin (k # ks) (br, bd) = Inr (r, d)"
      using ck True r by (simp add: cost_def Let_def)
    from alt have "\<exists>j\<in>set (k # ks). r = cand j \<and> d = cost j \<and> jsLess (cost j) bd \<and>
         (\<forall>i\<in>set (k # ks). \<not> jsLess (cost i) (cost j))"
    proof
      assume a: "r = cand k \<and> d = cost k \<and> (\<forall>j\<in>set ks. \<not> jsLess (cost j) (cost k))"
      then have "\<forall>i\<in>set (k # ks). \<not> jsLess (cost i) (cost k)" by (simp add: jsLess_irrefl)
      then show ?thesis using a True by auto
    next
      assume "\<exists>j\<in>set ks. r = cand j \<and> d = cost j \<and> jsLess (cost j) (cost k) \<and>
                   (\<forall>i\<in>set ks. \<not> jsLess (cost i) (cost j))"
      then obtain j where j: "j \<in> set ks" "r = cand j" "d = cost j"
        "jsLess (cost j) (cost k)" "\<forall>i\<in>set ks. \<not> jsLess (cost i) (cost j)" by auto
      have "jsLess (cost j) bd" using j(4) True by (rule jsLess_trans)
      moreover have "\<not> jsLess (cost k) (cost j)"
        using j(4) jsLess_trans [of "cost k" "cost j" "cost k"] jsLess_irrefl [of "cost k"] by blast
      then have "\<forall>i\<in>set (k # ks). \<not> jsLess (cost i) (cost j)" using j(5) by simp
      ultimately show ?thesis using j(1,2,3) by auto
    qed
    then show ?thesis using e unfolding cost_def by blast
  next
    case False
    from Cons.IH [OF rest, of br bd] obtain r d where
      r: "tryEndings apps origin ks (br, bd) = Inr (r, d)"
      and alt: "(r = br \<and> d = bd \<and> (\<forall>j\<in>set ks. \<not> jsLess (cost j) bd)) \<or>
                (\<exists>j\<in>set ks. r = cand j \<and> d = cost j \<and> jsLess (cost j) bd \<and>
                   (\<forall>i\<in>set ks. \<not> jsLess (cost i) (cost j)))"
      unfolding cost_def by blast
    have e: "tryEndings apps origin (k # ks) (br, bd) = Inr (r, d)"
      using ck False r by (simp add: cost_def Let_def)
    from alt have "(r = br \<and> d = bd \<and> (\<forall>j\<in>set (k # ks). \<not> jsLess (cost j) bd)) \<or>
                (\<exists>j\<in>set (k # ks). r = cand j \<and> d = cost j \<and> jsLess (cost j) bd \<and>
                   (\<forall>i\<in>set (k # ks). \<not> jsLess (cost i) (cost j)))"
    proof
      assume "r = br \<and> d = bd \<and> (\<forall>j\<in>set ks. \<not> jsLess (cost j) bd)"
      then show ?thesis using False by simp
    next
      assume "\<exists>j\<in>set ks. r = cand j \<and> d = cost j \<and> jsLess (cost j) bd \<and>
                   (\<forall>i\<in>set ks. \<not> jsLess (cost i) (cost j))"
      then obtain j where j: "j \<in> set ks" "r = cand j" "d = cost j"
        "jsLess (cost j) bd" "\<forall>i\<in>set ks. \<not> jsLess (cost i) (cost j)" by auto
      have "\<not> jsLess (cost k) (cost j)"
        using False j(4) jsLess_trans [of "cost k" "cost j" bd] by blast
      then have "\<forall>i\<in>set (k # ks). \<not> jsLess (cost i) (cost j)" using j(5) by simp
      then show ?thesis using j(1,2,3,4) by auto
    qed
    then show ?thesis using e unfolding cost_def by blast
  qed
qed

text \<open>
  What \<open>optimizeRoundTripRoute\<close> returns on two or more appointments, whatever the
  distances are: every index has its candidate, a permutation of the input; the result is
  the empty route with \<open>Infinity\<close> when no candidate's total is below \<open>Infinity\<close> (every
  total is NaN then), and otherwise one of the candidates with its round-trip distance;
  no candidate's total is below the total returned.
\<close>

lemma optimizeRoundTripRoute_search:
  assumes "2 \<le> length appointments"
  shows "\<exists>route total.
           optimizeRoundTripRoute appointments (Some origin) = Inr (route, total) \<and>
           ((route = [] \<and> total = Infinity) \<or>
            (\<exists>k<length appointments. optimizeSingleRoute appointments origin k = Inr route \<and>
               total = calculateRoundTripDistance route origin)) \<and>
           (\<forall>k<length appointments. \<exists>candidate.
               optimizeSingleRoute appointments origin k = Inr candidate \<and>
               mset candidate = mset appointments \<and>
               \<not> jsLess (calculateRoundTripDistance candidate origin) total)"
proof -
  define cand where
    "cand k = (case optimizeSingleRoute appointments origin k of Inr c \<Rightarrow> c | Inl e \<Rightarrow> [])" for k
  have c: "optimizeSingleRoute appointments origin k = Inr (cand k) \<and>
           mset (cand k) = mset appointments" if "k < length appointments" for k
    using optimizeSingleRoute_returns [OF that, of origin] by (auto simp: cand_def)
  have all: "\<forall>k\<in>set [0..<length appointments]. optimizeSingleRoute appointments origin k = Inr (cand k)"
    using c by simp
  from tryEndings_best [OF all, of "[]" Infinity] obtain r d where
    r: "tryEndings appointments origin [0..<length appointments] ([], Infinity) = Inr (r, d)"
    and alt: "(r = [] \<and> d = Infinity \<and>
      (\<forall>k\<in>set [0..<length appointments].
          \<not> jsLess (calculateRoundTripDistance (cand k) origin) Infinity)) \<or>
      (\<exists>k\<in>set [0..<length appointments]. r = cand k \<and>
         d = calculateRoundTripDistance (cand k) origin \<and>
         jsLess (calculateRoundTripDistance (cand k) origin) Infinity \<and>
         (\<forall>j\<in>set [0..<length appointments].
            \<not> jsLess (calculateRoundTripDistance (cand j) origin)
                     (calculateRoundTripDistance (cand k) origin)))"
    by blast
  have e: "optimizeRoundTripRoute appointments (Some origin) = Inr (r, d)"
    using assms r by (simp add: optimizeRoundTripRoute_def)
  from alt have low: "\<forall>k<length appointments. \<not> jsLess (calculateRoundTripDistance (cand k) origin) d"
    by auto
  from alt have shape: "(r = [] \<and> d = Infinity) \<or>
            (\<exists>k<length appointments. optimizeSingleRoute appointments origin k = Inr r \<and>
               d = calculateRoundTripDistance r origin)"
    using c by auto
  have "\<forall>k<length appointments. \<exists>candidate.
               optimizeSingleRoute appointments origin k = Inr candidate \<and>
               mset candidate = mset appointments \<and>
               \<not> jsLess (calculateRoundTripDistance candidate origin) d"
    using c low by blast
  then show ?thesis using e shape by blast
qed

text \<open>The round-trip distance of a route, written out: the leg from the origin to the
  first stop, then the consecutive legs, then the leg from the last stop to the origin.\<close>

lemma consecutiveLegs_total:
  "consecutiveLegs route totalDistance = jsAdd totalDistance (consecutiveLegs route (Finite 0))"
proof (induction route arbitrary: totalDistance)
  case Nil
  show ?case by (cases totalDistance) auto
next
  case (Cons x xs)
  show ?case
  proof (cases xs)
    case Nil
    then show ?thesis by (cases totalDistance) auto
  next
    case (Cons y ys)
    define d where "d = calculateDistance (location x) (location y)"
    have "consecutiveLegs (x # xs) totalDistance = consecutiveLegs xs (jsAdd totalDistance d)"
      by (simp add: Cons d_def)
    also have "\<dots> = jsAdd (jsAdd totalDistance d) (consecutiveLegs xs (Finite 0))"
      by (rule Cons.IH)
    finally have l: "consecutiveLegs (x # xs) totalDistance
                       = jsAdd totalDistance (jsAdd d (consecutiveLegs xs (Finite 0)))"
      by (simp add: jsAdd_assoc)
    have "consecutiveLegs (x # xs) (Finite 0) = consecutiveLegs xs (jsAdd (Finite 0) d)"
      by (simp add: Cons d_def)
    also have "\<dots> = jsAdd (jsAdd (Finite 0) d) (consecutiveLegs xs (Finite 0))" by (rule Cons.IH)
    finally show ?thesis using l by (simp add: jsAdd_zero)
  qed
qed

lemma calculateRoundTripDistance_legs:
  "calculateRoundTripDistance (first # rest) origin =
     jsAdd (calculateDistance origin (location first))
       (jsAdd (consecutiveLegs (first # rest) (Finite 0))
          (calculateDistance (location (last (first # rest))) origin))"
proof -
  have "consecutiveLegs (first # rest) (calculateDistance origin (location first))
          = jsAdd (calculateDistance origin (location first))
              (consecutiveLegs (first # rest) (Finite 0))"
    by (rule consecutiveLegs_total)
  then show ?thesis
    by (simp add: calculateRoundTripDistance_def jsAdd_zero jsAdd_assoc last_conv_nth)
qed

text \<open>
  C1. On the two appointments \<open>x\<close> and \<open>y\<close>, both at (-8, 180), with the starting
  location (8, 0), \<open>optimizeRoundTripRoute\<close> returns the empty route with the total
  distance \<open>Infinity\<close>: none of the forced-final candidates, and not the minimum of their
  round-trip distances. The leg from the origin to the first stop is NaN, so is the total
  of each candidate, and \<open>totalDistance < bestTotalDistance\<close> is false each time. Lemma
  \<open>optimizeRoundTripRoute_search\<close> has what the search returns on every input.
\<close>

theorem optimizeRoundTripRoute_no_route:
  "optimizeRoundTripRoute [stopAt ''x'' (- 8) 180, stopAt ''y'' (- 8) 180]
     (Some \<lparr>lat = 8, lng = 0\<rparr>) = Inr ([], Infinity)"
proof -
  have c0: "optimizeSingleRoute [stopAt ''x'' (- 8) 180, stopAt ''y'' (- 8) 180]
              \<lparr>lat = 8, lng = 0\<rparr> 0
            = Inr [stopAt ''x'' (- 8) 180, stopAt ''y'' (- 8) 180]"
    by (simp add: optimizeSingleRoute_def nthOpt_def optimizeSingleRouteWhile.simps
        isTargetEnd_def spliceOne_def location_stopAt id_stopAt Let_def
        calculateDistance_near_antipodes)
  have c1: "optimizeSingleRoute [stopAt ''x'' (- 8) 180, stopAt ''y'' (- 8) 180]
              \<lparr>lat = 8, lng = 0\<rparr> (Suc 0)
            = Inr [stopAt ''x'' (- 8) 180, stopAt ''y'' (- 8) 180]"
    by (simp add: optimizeSingleRoute_def nthOpt_def optimizeSingleRouteWhile.simps
        isTargetEnd_def spliceOne_def location_stopAt id_stopAt Let_def
        calculateDistance_near_antipodes)
  have t: "calculateRoundTripDistance [stopAt ''x'' (- 8) 180, stopAt ''y'' (- 8) 180]
             \<lparr>lat = 8, lng = 0\<rparr> = NaN"
    by (simp add: calculateRoundTripDistance_def location_stopAt calculateDistance_near_antipodes)
  have u: "[0..<2] = [0, Suc 0]" by (simp add: upt_rec)
  show ?thesis
    by (simp add: optimizeRoundTripRoute_def u c0 c1 t)
qed

text \<open>
  C4. \<open>optimizeRoundTripRoute\<close> on zero stops returns the empty route with total distance
  0; on one stop it returns the route of that stop, with total distance
  \<open>distance(origin, stop) + distance(stop, origin)\<close> when a starting location is given and
  0 when none is.
\<close>

theorem optimizeRoundTripRoute_edge_cases:
  "optimizeRoundTripRoute [] startLocation = Inr ([], Finite 0) \<and>
   optimizeRoundTripRoute [a] (Some s) =
     Inr ([a], jsAdd (calculateDistance s (location a)) (calculateDistance (location a) s)) \<and>
   optimizeRoundTripRoute [a] None = Inr ([a], Finite 0)"
  by (simp add: optimizeRoundTripRoute_def split: option.split)



section \<open>The schedule\<close>









lemma arrivalInstants_invalid_date:
  "arrivalInstants [stopAt ''t'' 8 0, stopAt ''x'' (- 8) 180] 540 3 None
     = [Valid 540, InvalidDate] \<and>
   generateAppointmentTimesOpenPath [stopAt ''t'' 8 0, stopAt ''x'' (- 8) 180] 540 3
     = [''09:00 AM'', ''Invalid Date'']"
  by (simp add: generateAppointmentTimesOpenPath_def arrivalInstants_def Let_def location_stopAt
      calculateDistance_near_antipodes timeClip_def truncate_def twoDigits_def
      duration_stopAt split: prod.split)

text \<open>The range of \<open>Date\<close> gives an Invalid Date too: after a service of 3e11 minutes the
  clock is past 8.64e15 milliseconds, although every distance is 0.\<close>

lemma arrivalInstants_out_of_range:
  "arrivalInstants [(stopAt ''a'' 0 0)\<lparr>duration := 300000000000\<rparr>, stopAt ''b'' 0 0] 540 3 None
     = [Valid 540, InvalidDate]"
  by (simp add: arrivalInstants_def Let_def location_def stopAt_def calculateDistance_self
      timeClip_def truncate_def split: prod.split)


section \<open>The optimize handler on no appointments\<close>

text \<open>
  C8. When there is no appointment to optimize, the handler answers with status 400 and the
  error body \<open>No appointments found to optimize\<close>: it returns no optimization result,
  and the one call it has made is the database read; it makes no call to the distance
  provider.
\<close>

theorem POST_optimize_empty:
  "POST_optimize startTime startingLocation [] =
     (JsonResponse 400 (ErrorBody ''No appointments found to optimize''), [PrismaFindMany])"
  by (simp add: POST_optimize_def)

section \<open>The distance-matrix route on a partly failed answer\<close>

lemma mapIndexed_total:
  assumes "\<forall>k<length xs. f (index + k) (xs ! k) = Inr (g (index + k) (xs ! k))"
  shows "mapIndexed f index xs = Inr (map (\<lambda>k. g (index + k) (xs ! k)) [0..<length xs])"
  using assms
proof (induction xs arbitrary: index)
  case Nil
  show ?case by simp
next
  case (Cons x xs)
  have h: "f index x = Inr (g index x)" using Cons.prems by fastforce
  have "\<forall>k<length xs. f (Suc index + k) (xs ! k) = Inr (g (Suc index + k) (xs ! k))"
  proof (intro allI impI)
    fix k assume "k < length xs"
    then have "f (index + Suc k) ((x # xs) ! Suc k) = Inr (g (index + Suc k) ((x # xs) ! Suc k))"
      using Cons.prems by (metis Suc_less_eq length_Cons)
    then show "f (Suc index + k) (xs ! k) = Inr (g (Suc index + k) (xs ! k))" by simp
  qed
  then have t: "mapIndexed f (Suc index) xs
                 = Inr (map (\<lambda>k. g (Suc index + k) (xs ! k)) [0..<length xs])"
    by (rule Cons.IH)
  have "map (\<lambda>k. g (index + k) ((x # xs) ! k)) [0..<length (x # xs)]
          = g index x # map (\<lambda>k. g (Suc index + k) (xs ! k)) [0..<length xs]"
    by (simp add: upt_conv_Cons map_Suc_upt [symmetric] del: upt_Suc)
  then show ?case using h t by simp
qed

lemma convertElement_value:
  assumes "i < length origins" and "j < length destinations" and "el \<noteq> Element ''OK'' None"
  shows "convertElement origins destinations i j el =
           Inr (case el of Element status distance \<Rightarrow>
                  if status = ''OK'' then (case distance of Some v \<Rightarrow> Finite (v * 0.000621371) | None \<Rightarrow> NaN)
                  else calculateDistance (origins ! i) (destinations ! j))"
proof (cases el)
  case (Element status distance)
  show ?thesis
  proof (cases "status = ''OK''")
    case True
    then obtain v where "distance = Some v" using assms(3) Element by (cases distance) auto
    then show ?thesis using True Element by simp
  next
    case False
    then show ?thesis using assms(1,2) Element by (simp add: nthOpt_def)
  qed
qed

text \<open>
  C7. When the provider answers \<open>OK\<close> as a whole, with one row per origin, one element
  per destination in each row and a distance in every element whose status is \<open>OK\<close>, the
  handler answers with a matrix of the same shape in which every cell whose element is
  \<open>OK\<close> is the provider's value in meters times 0.000621371, and every cell whose
  element failed, and only such a cell, is the haversine distance of the same origin and
  destination.
\<close>

theorem POST_distance_matrix_partial_failure:
  assumes "key \<noteq> []" and "origins \<noteq> []" and "destinations \<noteq> []"
    and "length rows = length origins"
    and "\<forall>row\<in>set rows. length row = length destinations \<and> Element ''OK'' None \<notin> set row"
  shows "\<exists>distanceMatrix.
           POST_distance_matrix True (Some origins) (Some destinations) (Some key)
             (ProviderData ''OK'' rows) = JsonResponse 200 (DistanceMatrixBody distanceMatrix) \<and>
           length distanceMatrix = length origins \<and>
           (\<forall>i<length origins. length (distanceMatrix ! i) = length destinations \<and>
              (\<forall>j<length destinations.
                 (\<forall>v. rows ! i ! j = Element ''OK'' (Some v) \<longrightarrow>
                        distanceMatrix ! i ! j = Finite (v * 0.000621371)) \<and>
                 (\<forall>status distance. rows ! i ! j = Element status distance \<and> status \<noteq> ''OK'' \<longrightarrow>
                        distanceMatrix ! i ! j
                          = calculateDistance (origins ! i) (destinations ! j))))"
proof -
  define g where "g i j el =
     (case el of Element status distance \<Rightarrow>
        if status = ''OK'' then (case distance of Some v \<Rightarrow> Finite (v * 0.000621371) | None \<Rightarrow> NaN)
        else calculateDistance (origins ! i) (destinations ! j))" for i j el
  define h where "h i row = map (\<lambda>j. g i (0 + j) (row ! j)) [0..<length row]" for i row
  define m where "m = map (\<lambda>i. h (0 + i) (rows ! i)) [0..<length rows]"
  have row: "mapIndexed (\<lambda>destIndex el. convertElement origins destinations (0 + i) destIndex el)
               0 (rows ! i) = Inr (h (0 + i) (rows ! i))" if i: "i < length rows" for i
  proof -
    have r: "rows ! i \<in> set rows" using i by simp
    have "\<forall>j<length (rows ! i).
            convertElement origins destinations (0 + i) (0 + j) (rows ! i ! j)
              = Inr (g (0 + i) (0 + j) (rows ! i ! j))"
    proof (intro allI impI)
      fix j assume j: "j < length (rows ! i)"
      then have "rows ! i ! j \<in> set (rows ! i)" by simp
      then have "rows ! i ! j \<noteq> Element ''OK'' None" using assms(5) r by metis
      moreover have "j < length destinations" using j assms(5) r by simp
      moreover have "i < length origins" using i assms(4) by simp
      ultimately show "convertElement origins destinations (0 + i) (0 + j) (rows ! i ! j)
              = Inr (g (0 + i) (0 + j) (rows ! i ! j))"
        unfolding g_def by (simp add: convertElement_value split: element.split)
    qed
    then show ?thesis unfolding h_def
      by (rule mapIndexed_total
            [of "rows ! i" "\<lambda>destIndex el. convertElement origins destinations (0 + i) destIndex el"
                0 "g (0 + i)"])
  qed
  have "convertRows origins destinations rows = Inr m"
    unfolding convertRows_def m_def
    by (rule mapIndexed_total) (use row in simp)
  then have p: "POST_distance_matrix True (Some origins) (Some destinations) (Some key)
             (ProviderData ''OK'' rows) = JsonResponse 200 (DistanceMatrixBody m)"
    using assms(1,2,3) by (simp add: POST_distance_matrix_def)
  have l: "length m = length origins" using assms(4) by (simp add: m_def)
  have c: "length (m ! i) = length destinations \<and>
              (\<forall>j<length destinations.
                 (\<forall>v. rows ! i ! j = Element ''OK'' (Some v) \<longrightarrow> m ! i ! j = Finite (v * 0.000621371)) \<and>
                 (\<forall>status distance. rows ! i ! j = Element status distance \<and> status \<noteq> ''OK'' \<longrightarrow>
                        m ! i ! j = calculateDistance (origins ! i) (destinations ! j)))"
    if i: "i < length origins" for i
  proof -
    have ir: "i < length rows" using i assms(4) by simp
    then have lr: "length (rows ! i) = length destinations" using assms(5) by simp
    have mi: "m ! i = map (\<lambda>j. g i j (rows ! i ! j)) [0..<length destinations]"
      using ir lr by (simp add: m_def h_def)
    show ?thesis unfolding mi by (simp add: g_def)
  qed
  show ?thesis using p l c by blast
qed

theorem POST_distance_matrix_partial_failure_witness:
  "''key'' \<noteq> [] \<and> [\<lparr>lat = 0, lng = 0\<rparr>] \<noteq> [] \<and>
   [\<lparr>lat = 0, lng = 0\<rparr>, \<lparr>lat = 0, lng = 180\<rparr>] \<noteq> [] \<and>
   length [[Element ''OK'' (Some 1000), Element ''ZERO_RESULTS'' None]]
     = length [\<lparr>lat = 0, lng = 0\<rparr>] \<and>
   length [Element ''OK'' (Some 1000), Element ''ZERO_RESULTS'' None]
     = length [\<lparr>lat = 0, lng = 0\<rparr>, \<lparr>lat = 0, lng = 180\<rparr>] \<and>
   Element ''OK'' None \<notin> set [Element ''OK'' (Some 1000), Element ''ZERO_RESULTS'' None] \<and>
   (\<exists>distanceMatrix.
      POST_distance_matrix True (Some [\<lparr>lat = 0, lng = 0\<rparr>])
        (Some [\<lparr>lat = 0, lng = 0\<rparr>, \<lparr>lat = 0, lng = 180\<rparr>]) (Some ''key'')
        (ProviderData ''OK'' [[Element ''OK'' (Some 1000), Element ''ZERO_RESULTS'' None]])
        = JsonResponse 200 (DistanceMatrixBody distanceMatrix) \<and>
      length distanceMatrix = length [\<lparr>lat = 0, lng = 0::real\<rparr>])"
proof -
  have h1: "''key'' \<noteq> []" by simp
  have h2: "[\<lparr>lat = 0, lng = 0\<rparr>] \<noteq> []" by simp
  have h3: "[\<lparr>lat = 0, lng = 0\<rparr>, \<lparr>lat = 0, lng = 180\<rparr>] \<noteq> []" by simp
  have h4: "length [[Element ''OK'' (Some 1000), Element ''ZERO_RESULTS'' None]]
     = length [\<lparr>lat = 0, lng = 0\<rparr>]" by simp
  have h5: "\<forall>row\<in>set [[Element ''OK'' (Some 1000), Element ''ZERO_RESULTS'' None]].
      length row = length [\<lparr>lat = 0, lng = 0\<rparr>, \<lparr>lat = 0, lng = 180\<rparr>] \<and>
      Element ''OK'' None \<notin> set row" by simp
  have h6: "length [Element ''OK'' (Some 1000), Element ''ZERO_RESULTS'' None]
     = length [\<lparr>lat = 0, lng = 0\<rparr>, \<lparr>lat = 0, lng = 180\<rparr>]" by simp
  have h7: "Element ''OK'' None \<notin> set [Element ''OK'' (Some 1000), Element ''ZERO_RESULTS'' None]"
    by simp
  show ?thesis
    using h1 h2 h3 h4 h6 h7 POST_distance_matrix_partial_failure [OF h1 h2 h3 h4 h5] by blast
qed

lemma POST_distance_matrix_example:
  "POST_distance_matrix True (Some [\<lparr>lat = 0, lng = 0\<rparr>])
     (Some [\<lparr>lat = 0, lng = 0\<rparr>, \<lparr>lat = 0, lng = 180\<rparr>]) (Some ''key'')
     (ProviderData ''OK'' [[Element ''OK'' (Some 1000), Element ''ZERO_RESULTS'' None]])
   = JsonResponse 200
       (DistanceMatrixBody
          [[Finite (1000 * 0.000621371),
            calculateDistance \<lparr>lat = 0, lng = 0\<rparr> \<lparr>lat = 0, lng = 180\<rparr>]])"
  by (simp add: POST_distance_matrix_def convertRows_def nthOpt_def)

section \<open>The client-side optimizer on a full matrix\<close>

lemma findIndex_bounds: "- 1 \<le> findIndex p xs \<and> findIndex p xs < int (length xs)"
  by (induction xs) (auto simp: Let_def)

lemma findIndex_found:
  "findIndex p xs \<noteq> - 1 \<Longrightarrow> p (xs ! nat (findIndex p xs))"
proof (induction xs)
  case Nil
  then show ?case by simp
next
  case (Cons x xs)
  show ?case
  proof (cases "p x")
    case True
    then show ?thesis by simp
  next
    case False
    then have r: "findIndex p xs \<noteq> - 1" using Cons.prems by (auto simp: Let_def)
    then have "0 \<le> findIndex p xs" using findIndex_bounds [of p xs] by linarith
    then have "nat (findIndex p xs + 1) = Suc (nat (findIndex p xs))" by linarith
    then show ?thesis using False r Cons.IH by (simp add: Let_def)
  qed
qed

lemma findIndex_absent: "findIndex p xs = - 1 \<Longrightarrow> \<forall>x\<in>set xs. \<not> p x"
proof (induction xs)
  case Nil
  show ?case by simp
next
  case (Cons x xs)
  have "- 1 \<le> findIndex p xs" using findIndex_bounds by blast
  then show ?case using Cons by (auto simp: Let_def split: if_splits)
qed

















text \<open>The distance-matrix route does the same when its own request to the provider
  fails as a whole: it answers 200 with the haversine matrix.\<close>

lemma POST_distance_matrix_whole_failure:
  assumes "key \<noteq> []" and "origins \<noteq> []" and "destinations \<noteq> []"
    and "provider = ProviderThrows \<or> (\<exists>status rows. provider = ProviderData status rows \<and> status \<noteq> ''OK'')"
  shows "POST_distance_matrix True (Some origins) (Some destinations) (Some key) provider
           = JsonResponse 200 (DistanceMatrixBody (haversineMatrix origins destinations))"
  using assms by (auto simp: POST_distance_matrix_def)

section \<open>Worked examples\<close>

text \<open>Stops on the equator: at the origin the distance is 0, and the schedule of two stops
  there, started at 09:00, has the times 09:00 and 09:30.\<close>

lemma calculateDistance_same_point:
  "calculateDistance \<lparr>lat = 0, lng = 0\<rparr> \<lparr>lat = 0, lng = 0\<rparr> = Finite 0"
  by (rule calculateDistance_self)

lemma arrivalInstants_example:
  "arrivalInstants [stopAt ''a'' 0 0, stopAt ''b'' 0 0] 540 3 (Some \<lparr>lat = 0, lng = 0\<rparr>)
     = [Valid 540, Valid 570]"
  by (simp add: arrivalInstants_def Let_def location_stopAt duration_stopAt
      calculateDistance_self timeClip_def truncate_def split: prod.split)

lemma generateAppointmentTimes_example:
  "generateAppointmentTimes [stopAt ''a'' 0 0, stopAt ''b'' 0 0] 540 3 (Some \<lparr>lat = 0, lng = 0\<rparr>)
     = ([''09:00 AM'', ''09:30 AM''], Some ''10:00 AM'')"
  by (simp add: generateAppointmentTimes_def Let_def location_stopAt duration_stopAt
      calculateDistance_self timeClip_def truncate_def twoDigits_def split: prod.split)

lemma toLocaleTimeString_afternoon: "toLocaleTimeString (Valid 780) = ''01:00 PM''"
  by (simp add: twoDigits_def Let_def)

text \<open>Three stops at one place, visited from there with the first as the forced final
  stop: every distance is 0, the scan keeps the first index that is not the target's.\<close>

lemma optimizeSingleRoute_example:
  "optimizeSingleRoute [stopAt ''a'' 0 0, stopAt ''b'' 0 0, stopAt ''c'' 0 0] \<lparr>lat = 0, lng = 0\<rparr> 0
   = Inr [stopAt ''b'' 0 0, stopAt ''c'' 0 0, stopAt ''a'' 0 0]"
  by (simp add: optimizeSingleRoute_def nthOpt_def optimizeSingleRouteWhile.simps isTargetEnd_def
      location_stopAt id_stopAt calculateDistance_self spliceOne_def Let_def)

lemma optimizeRoundTripRoute_example:
  "optimizeRoundTripRoute [stopAt ''a'' 0 0, stopAt ''b'' 0 0] (Some \<lparr>lat = 0, lng = 0\<rparr>)
   = Inr ([stopAt ''b'' 0 0, stopAt ''a'' 0 0], Finite 0)"
  by (simp add: optimizeRoundTripRoute_def optimizeSingleRoute_def nthOpt_def
      optimizeSingleRouteWhile.simps isTargetEnd_def calculateRoundTripDistance_def
      location_stopAt id_stopAt calculateDistance_self spliceOne_def Let_def upt_conv_Cons)

end
